theory Spec2Isabelle
  imports Complex_Main "HOL-Library.Multiset"
begin

section \<open>Data model\<close>

text \<open>
  Go's \<open>float64\<close> values are idealised as real numbers: \<open>math.Max\<close>, \<open>math.Min\<close>, \<open>+\<close>,
  \<open>-\<close>, \<open>*\<close>, \<open>/\<close> and the comparisons are the exact operations on \<open>real\<close>; rounding error,
  infinities and NaN are outside the model. Strings are byte sequences.
\<close>

text \<open>\<open>parser.Caption\<close> (parser.go).\<close>

record Caption =
  Index :: int
  StartTime :: real
  EndTime :: real
  Text :: string

text \<open>
  The error values the core returns, named after the taxonomy of the specification:
  \<open>errors.New("empty file")\<close> is \<open>EmptyFile\<close>, \<open>io.EOF\<close> is \<open>EOF\<close>,
  \<open>errors.New("missing WEBVTT header")\<close> is \<open>MissingHeader\<close>,
  \<open>errors.New("invalid time format")\<close> is \<open>InvalidTimeline\<close>,
  \<open>errors.New("invalid timestamp format")\<close> and the error of \<open>strconv.ParseFloat\<close> are
  \<open>InvalidTimestamp\<close>, \<open>fmt.Errorf("end time must be greater than start time")\<close> is
  \<open>InvalidRange\<close>, and \<open>bufio.ErrTooLong\<close> of the line scanner is \<open>TokenTooLong\<close>.
\<close>

datatype error =
  EmptyFile | EOF | MissingHeader | InvalidTimeline | InvalidTimestamp | InvalidRange
  | TokenTooLong

section \<open>Coverage engine (validator/coverage.go)\<close>

text \<open>The local type \<open>timeSegment\<close> of \<open>ValidateCoverage\<close>.\<close>

record timeSegment =
  seg_start :: real
  seg_end :: real

text \<open>\<open>validator.ValidationResult\<close>; the \<open>Data\<close> map holds numbers only.\<close>

record ValidationResult =
  Valid :: bool
  Type :: string
  Data :: "string \<rightharpoonup> real"

text \<open>
  Lines 54 to 65: the captions that overlap the window, clipped to it, in file order.
\<close>

fun collectSegments :: "Caption list \<Rightarrow> real \<Rightarrow> real \<Rightarrow> timeSegment list" where
  "collectSegments [] startTime endTime = []"
| "collectSegments (caption # captions) startTime endTime =
     (if EndTime caption \<le> startTime \<or> StartTime caption \<ge> endTime
      then collectSegments captions startTime endTime
      else \<lparr>seg_start = max (StartTime caption) startTime,
            seg_end = min (EndTime caption) endTime\<rparr>
           # collectSegments captions startTime endTime)"

text \<open>
  Lines 70 to 76: the exchange sort by start time. \<open>sortInner i j\<close> is the loop over \<open>j\<close>
  for a fixed \<open>i\<close>, \<open>sortOuter i\<close> the loop over \<open>i\<close>; a swap is two list updates.
\<close>

function sortInner :: "nat \<Rightarrow> nat \<Rightarrow> timeSegment list \<Rightarrow> timeSegment list" where
  "sortInner i j segs =
     (if j < length segs
      then sortInner i (j + 1)
             (if seg_start (segs ! i) > seg_start (segs ! j)
              then segs[i := segs ! j, j := segs ! i] else segs)
      else segs)"
  by pat_completeness auto
termination
  by (relation "measure (\<lambda>(i, j, segs). length segs - j)") auto

declare sortInner.simps [simp del]

lemma length_sortInner: "length (sortInner i j segs) = length segs"
proof (induction i j segs rule: sortInner.induct)
  case (1 i j segs)
  show ?case
  proof (cases "j < length segs")
    case True
    have "length (sortInner i j segs) =
          length (sortInner i (j + 1)
             (if seg_start (segs ! i) > seg_start (segs ! j)
              then segs[i := segs ! j, j := segs ! i] else segs))"
      using True by (subst sortInner.simps) (simp only: if_True)
    also have "\<dots> = length (if seg_start (segs ! i) > seg_start (segs ! j)
              then segs[i := segs ! j, j := segs ! i] else segs)"
      using True by (rule "1.IH")
    also have "\<dots> = length segs" by simp
    finally show ?thesis .
  next
    case False
    then show ?thesis by (subst sortInner.simps) (simp only: if_False)
  qed
qed

function sortOuter :: "nat \<Rightarrow> timeSegment list \<Rightarrow> timeSegment list" where
  "sortOuter i segs =
     (if i + 1 < length segs then sortOuter (i + 1) (sortInner i (i + 1) segs) else segs)"
  by pat_completeness auto
termination
  by (relation "measure (\<lambda>(i, segs). length segs - i)") (auto simp: length_sortInner)

declare sortOuter.simps [simp del]

text \<open>
  Lines 79 to 93: one step of the merge loop. \<open>last\<close> points into \<open>merged\<close>, so the
  assignment to \<open>last.end\<close> replaces the last element of \<open>merged\<close>.
\<close>

definition mergeStep :: "timeSegment list \<Rightarrow> timeSegment \<Rightarrow> timeSegment list" where
  "mergeStep merged current =
     (let lst = last merged in
      if seg_start current \<le> seg_end lst
      then (if seg_end current > seg_end lst
            then butlast merged @ [lst\<lparr>seg_end := seg_end current\<rparr>]
            else merged)
      else merged @ [current])"

text \<open>Lines 68 to 96: sort, then merge from the first segment on.\<close>

definition mergeOverlapping :: "timeSegment list \<Rightarrow> timeSegment list" where
  "mergeOverlapping coveredSegments =
     (if length coveredSegments > 0
      then (let sorted = sortOuter 0 coveredSegments
            in foldl mergeStep [sorted ! 0] (drop 1 sorted))
      else coveredSegments)"

text \<open>Lines 98 to 102: the sum of the segment lengths, from the left.\<close>

definition sumSegments :: "timeSegment list \<Rightarrow> real" where
  "sumSegments segs = foldl (\<lambda>coveredTime seg. coveredTime + (seg_end seg - seg_start seg)) 0 segs"

text \<open>The value of the local variable \<open>coveredTime\<close> at line 103, for a valid window.\<close>

definition coveredTime :: "Caption list \<Rightarrow> real \<Rightarrow> real \<Rightarrow> real" where
  "coveredTime captions startTime endTime =
     sumSegments (mergeOverlapping (collectSegments captions startTime endTime))"

text \<open>
  \<open>math.Round\<close> of Go's standard library on the reals: the nearest integer, halves away
  from zero.
\<close>

definition go_round :: "real \<Rightarrow> real" where
  "go_round x = (if x \<ge> 0 then of_int \<lfloor>x + 1 / 2\<rfloor> else - of_int \<lfloor>- x + 1 / 2\<rfloor>)"

definition ValidateCoverage ::
  "Caption list \<Rightarrow> real \<Rightarrow> real \<Rightarrow> real \<Rightarrow> error + ValidationResult" where
  "ValidateCoverage captions startTime endTime minCoverage =
     (if endTime \<le> startTime then Inl InvalidRange
      else
        let totalTime = endTime - startTime;
            covered = coveredTime captions startTime endTime;
            coveragePercent = (covered / totalTime) * 100;
            valid = (coveragePercent \<ge> minCoverage);
            result = \<lparr>Valid = valid, Type = ''caption_coverage'',
                      Data = [''required_coverage'' \<mapsto> minCoverage,
                              ''actual_coverage'' \<mapsto> go_round (coveragePercent * 100) / 100,
                              ''start_time'' \<mapsto> startTime,
                              ''end_time'' \<mapsto> endTime,
                              ''covered_time'' \<mapsto> go_round (covered * 100) / 100,
                              ''total_time'' \<mapsto> totalTime]\<rparr>
        in Inr (if \<not> valid
                then result\<lparr>Data := (Data result)(''missing_coverage_seconds'' \<mapsto>
                       go_round (((minCoverage / 100) * totalTime - covered) * 100) / 100)\<rparr>
                else result))"

section \<open>Library functions the parsers call\<close>

text \<open>
  \<open>strconv.ParseFloat(s, 64)\<close> and \<open>strconv.Atoi\<close> are taken as parameters of the
  parsers: \<open>None\<close> is a returned error. Nothing is assumed about which strings they
  accept.
\<close>

record strconv =
  ParseFloat :: "string \<Rightarrow> real option"
  Atoi :: "string \<Rightarrow> int option"

text \<open>\<open>strings.HasPrefix\<close>, \<open>strings.Contains\<close>.\<close>

fun HasPrefix :: "string \<Rightarrow> string \<Rightarrow> bool" where
  "HasPrefix s [] = True"
| "HasPrefix [] (p # ps) = False"
| "HasPrefix (c # cs) (p # ps) = (c = p \<and> HasPrefix cs ps)"

fun Contains :: "string \<Rightarrow> string \<Rightarrow> bool" where
  "Contains [] substr = (substr = [])"
| "Contains (c # cs) substr = (HasPrefix (c # cs) substr \<or> Contains cs substr)"

text \<open>
  \<open>strings.Split(s, sep)\<close> for a non-empty separator: the pieces between the
  non-overlapping occurrences of \<open>sep\<close>, found from the left; \<open>cur\<close> is the piece being
  read. (The code never splits on the empty separator.)
\<close>

function splitFrom :: "string \<Rightarrow> string \<Rightarrow> string \<Rightarrow> string list" where
  "splitFrom sep cur s =
     (if s = [] then [cur]
      else if sep \<noteq> [] \<and> HasPrefix s sep then cur # splitFrom sep [] (drop (length sep) s)
      else splitFrom sep (cur @ [hd s]) (tl s))"
  by pat_completeness auto
termination
  by (relation "measure (\<lambda>(sep, cur, s). length s)") auto

declare splitFrom.simps [simp del]

definition Split :: "string \<Rightarrow> string \<Rightarrow> string list" where
  "Split s sep = splitFrom sep [] s"

text \<open>
  \<open>strings.TrimSpace\<close> on byte strings. Go trims the runes for which
  \<open>unicode.IsSpace\<close> holds: tab, line feed, vertical tab, form feed, carriage return,
  space, U+0085, U+00A0, U+1680, U+2000 to U+200A, U+2028, U+2029, U+202F, U+205F and
  U+3000. \<open>whiteSpace\<close> lists their UTF-8 encodings. A string starts with the encoding
  of a rune exactly when \<open>utf8.DecodeRuneInString\<close> reads that rune from it, and ends
  with the encoding exactly when \<open>utf8.DecodeLastRuneInString\<close> does; a byte that starts
  no valid encoding is read as the rune error, which is no space.
\<close>

definition whiteSpace :: "string list" where
  "whiteSpace =
     [[CHR 0x09], [CHR 0x0A], [CHR 0x0B], [CHR 0x0C], [CHR 0x0D], [CHR 0x20],
      [CHR 0xC2, CHR 0x85], [CHR 0xC2, CHR 0xA0],
      [CHR 0xE1, CHR 0x9A, CHR 0x80],
      [CHR 0xE2, CHR 0x80, CHR 0x80], [CHR 0xE2, CHR 0x80, CHR 0x81],
      [CHR 0xE2, CHR 0x80, CHR 0x82], [CHR 0xE2, CHR 0x80, CHR 0x83],
      [CHR 0xE2, CHR 0x80, CHR 0x84], [CHR 0xE2, CHR 0x80, CHR 0x85],
      [CHR 0xE2, CHR 0x80, CHR 0x86], [CHR 0xE2, CHR 0x80, CHR 0x87],
      [CHR 0xE2, CHR 0x80, CHR 0x88], [CHR 0xE2, CHR 0x80, CHR 0x89],
      [CHR 0xE2, CHR 0x80, CHR 0x8A],
      [CHR 0xE2, CHR 0x80, CHR 0xA8], [CHR 0xE2, CHR 0x80, CHR 0xA9],
      [CHR 0xE2, CHR 0x80, CHR 0xAF],
      [CHR 0xE2, CHR 0x81, CHR 0x9F],
      [CHR 0xE3, CHR 0x80, CHR 0x80]]"

text \<open>
  Removing runes of the list \<open>runes\<close> from the front of \<open>s\<close> for as long as one of
  them is a prefix (\<open>strings.TrimLeftFunc\<close>).
\<close>

function trimRunes :: "string list \<Rightarrow> string \<Rightarrow> string" where
  "trimRunes runes s =
     (case find (\<lambda>e. e \<noteq> [] \<and> HasPrefix s e) runes of
        None \<Rightarrow> s
      | Some e \<Rightarrow> trimRunes runes (drop (length e) s))"
  by pat_completeness auto
termination
proof (relation "measure (\<lambda>(runes, s). length s)")
  show "wf (measure (\<lambda>(runes, s). length s))" by simp
next
  fix runes :: "string list" and s e :: string
  assume "find (\<lambda>e. e \<noteq> [] \<and> HasPrefix s e) runes = Some e"
  then have "e \<noteq> []" "HasPrefix s e" by (auto simp: find_Some_iff)
  then have "s \<noteq> []" by (cases s; cases e) auto
  then show "((runes, drop (length e) s), (runes, s)) \<in> measure (\<lambda>(runes, s). length s)"
    using \<open>e \<noteq> []\<close> by simp
qed

declare trimRunes.simps [simp del]

text \<open>
  \<open>TrimSpace\<close> trims the front, then the back of what is left
  (\<open>TrimFunc(s, unicode.IsSpace)\<close>); trimming the back is trimming the reversed
  encodings from the front of the reversed string.
\<close>

definition TrimLeftSpace :: "string \<Rightarrow> string" where
  "TrimLeftSpace s = trimRunes whiteSpace s"

definition TrimRightSpace :: "string \<Rightarrow> string" where
  "TrimRightSpace s = rev (trimRunes (map rev whiteSpace) (rev s))"

definition TrimSpace :: "string \<Rightarrow> string" where
  "TrimSpace s = TrimRightSpace (TrimLeftSpace s)"

text \<open>\<open>strings.Join\<close>.\<close>

fun Join :: "string list \<Rightarrow> string \<Rightarrow> string" where
  "Join [] sep = []"
| "Join [x] sep = x"
| "Join (x # y # rest) sep = x @ sep @ Join (y # rest) sep"

text \<open>\<open>strings.Replace(s, old, new, 1)\<close> for one-byte \<open>old\<close> and \<open>new\<close>.\<close>

fun ReplaceFirst :: "string \<Rightarrow> char \<Rightarrow> char \<Rightarrow> string" where
  "ReplaceFirst [] old new = []"
| "ReplaceFirst (c # cs) old new = (if c = old then new # cs else c # ReplaceFirst cs old new)"

text \<open>
  \<open>bufio.Scanner\<close> with the default split function \<open>ScanLines\<close>, run to the end of
  the input: the lines that \<open>Scan\<close> delivers, and the error \<open>Err\<close> reports afterwards.
  A line ends at a line feed or at the end of the input; one trailing carriage return
  is dropped; an empty rest after the last line feed is no line. The scanner gives up
  with \<open>ErrTooLong\<close> when \<open>maxTokenSize\<close> bytes of a line are buffered and its end is
  not among them. \<open>cur\<close> is the part of the current line read so far.
\<close>

definition dropCR :: "string \<Rightarrow> string" where
  "dropCR data = (if data \<noteq> [] \<and> last data = CHR 0x0D then butlast data else data)"

fun scanFrom :: "nat \<Rightarrow> string \<Rightarrow> string \<Rightarrow> string list \<times> error option" where
  "scanFrom maxTokenSize cur [] =
     (if cur = [] then ([], None)
      else if length cur < maxTokenSize then ([dropCR cur], None)
      else ([], Some TokenTooLong))"
| "scanFrom maxTokenSize cur (c # cs) =
     (if c = CHR 0x0A
      then (if length cur < maxTokenSize
            then (case scanFrom maxTokenSize [] cs of (lines, err) \<Rightarrow> (dropCR cur # lines, err))
            else ([], Some TokenTooLong))
      else scanFrom maxTokenSize (cur @ [c]) cs)"

definition scanLines :: "nat \<Rightarrow> string \<Rightarrow> string list \<times> error option" where
  "scanLines maxTokenSize r = scanFrom maxTokenSize [] r"

text \<open>\<open>bufio.MaxScanTokenSize\<close>, the limit of a scanner whose buffer was not set.\<close>

definition MaxScanTokenSize :: nat where
  "MaxScanTokenSize = 64 * 1024"

section \<open>Format A parser (part 004: WebVTT)\<close>

text \<open>Lines 131 to 171.\<close>

definition parseWebVTTTimestamp :: "strconv \<Rightarrow> string \<Rightarrow> error + real" where
  "parseWebVTTTimestamp lib timestamp =
     (let parts = Split timestamp '':'' in
      if length parts = 3 then
        (case ParseFloat lib (parts ! 0) of None \<Rightarrow> Inl InvalidTimestamp | Some hours \<Rightarrow>
         case ParseFloat lib (parts ! 1) of None \<Rightarrow> Inl InvalidTimestamp | Some minutes \<Rightarrow>
         case ParseFloat lib (parts ! 2) of None \<Rightarrow> Inl InvalidTimestamp | Some seconds \<Rightarrow>
           Inr (hours * 3600 + minutes * 60 + seconds))
      else if length parts = 2 then
        (case ParseFloat lib (parts ! 0) of None \<Rightarrow> Inl InvalidTimestamp | Some minutes \<Rightarrow>
         case ParseFloat lib (parts ! 1) of None \<Rightarrow> Inl InvalidTimestamp | Some seconds \<Rightarrow>
           Inr (minutes * 60 + seconds))
      else Inl InvalidTimestamp)"

text \<open>Lines 99 to 127.\<close>

definition parseWebVTTTimeline :: "strconv \<Rightarrow> string \<Rightarrow> error + real \<times> real" where
  "parseWebVTTTimeline lib line0 =
     (let line = TrimSpace line0;
          parts = Split line ''-->'' in
      if length parts \<noteq> 2 then Inl InvalidTimeline
      else
        let startTimeStr = TrimSpace (parts ! 0);
            endTimeStr = TrimSpace (parts ! 1);
            endTimeStr = Split endTimeStr '' '' ! 0 in
        case parseWebVTTTimestamp lib startTimeStr of Inl err \<Rightarrow> Inl err | Inr startTime \<Rightarrow>
        case parseWebVTTTimestamp lib endTimeStr of Inl err \<Rightarrow> Inl err | Inr endTime \<Rightarrow>
          Inr (startTime, endTime))"

text \<open>The local variables of the cue loop of \<open>parseWebVTT\<close> (lines 13 and 32 to 35).\<close>

record vttState =
  vtt_captions :: "Caption list"
  vtt_currentCaption :: Caption
  vtt_inCaption :: bool
  vtt_textLines :: "string list"
  vtt_index :: int

text \<open>The zero value of \<open>Caption\<close>.\<close>

definition zeroCaption :: Caption where
  "zeroCaption = \<lparr>Index = 0, StartTime = 0, EndTime = 0, Text = []\<rparr>"

text \<open>
  Setting the text and the index of the current caption and appending it (lines 44 to
  48, 58 to 62 and 85 to 87).
\<close>

definition vttAppend :: "vttState \<Rightarrow> vttState" where
  "vttAppend st =
     (let cur = (vtt_currentCaption st)\<lparr>Text := Join (vtt_textLines st) [CHR 0x0A],
                                        Index := vtt_index st\<rparr>
      in st\<lparr>vtt_currentCaption := cur, vtt_captions := vtt_captions st @ [cur]\<rparr>)"

text \<open>One pass of the cue loop (lines 38 to 81); \<open>Inl\<close> is the early return.\<close>

definition vttStep :: "strconv \<Rightarrow> vttState \<Rightarrow> string \<Rightarrow> error + vttState" where
  "vttStep lib st line =
     (if line = [] then
        (if vtt_inCaption st
         then Inr ((vttAppend st)\<lparr>vtt_textLines := [], vtt_index := vtt_index st + 1,
                                   vtt_inCaption := False\<rparr>)
         else Inr st)
      else if Contains line ''-->'' then
        (let st1 = (if vtt_inCaption st
                    then (vttAppend st)\<lparr>vtt_textLines := [], vtt_index := vtt_index st + 1\<rparr>
                    else st)
         in case parseWebVTTTimeline lib line of
              Inl err \<Rightarrow> Inl err
            | Inr (startTime, endTime) \<Rightarrow>
                Inr (st1\<lparr>vtt_currentCaption := zeroCaption\<lparr>StartTime := startTime, EndTime := endTime\<rparr>,
                         vtt_inCaption := True\<rparr>))
      else if vtt_inCaption st then Inr (st\<lparr>vtt_textLines := vtt_textLines st @ [line]\<rparr>)
      else Inr st)"

fun vttLoop :: "strconv \<Rightarrow> vttState \<Rightarrow> string list \<Rightarrow> error + vttState" where
  "vttLoop lib st [] = Inr st"
| "vttLoop lib st (line # lines) =
     (case vttStep lib st line of Inl err \<Rightarrow> Inl err | Inr st' \<Rightarrow> vttLoop lib st' lines)"

text \<open>
  \<open>parseWebVTT\<close> (lines 12 to 95) on the bytes of the reader. The first \<open>Scan\<close> fails on
  an input without a line; the header loop skips up to and including the first empty
  line.
\<close>

definition parseWebVTT :: "strconv \<Rightarrow> string \<Rightarrow> error + Caption list" where
  "parseWebVTT lib r =
     (case scanLines MaxScanTokenSize r of (lines, scanErr) \<Rightarrow>
      case lines of
        [] \<Rightarrow> Inl EmptyFile
      | first # rest \<Rightarrow>
          if \<not> HasPrefix first ''WEBVTT'' then Inl MissingHeader
          else
            case vttLoop lib \<lparr>vtt_captions = [], vtt_currentCaption = zeroCaption,
                               vtt_inCaption = False, vtt_textLines = [], vtt_index = 1\<rparr>
                   (drop 1 (dropWhile (\<lambda>l. l \<noteq> []) rest)) of
              Inl err \<Rightarrow> Inl err
            | Inr st \<Rightarrow>
                let captions = (if vtt_inCaption st then vtt_captions (vttAppend st)
                                else vtt_captions st)
                in case scanErr of Some err \<Rightarrow> Inl err | None \<Rightarrow> Inr captions)"

section \<open>Format B parser (parser/srt.go: SRT)\<close>

text \<open>Lines 128 to 153.\<close>

definition parseSRTTimestamp :: "strconv \<Rightarrow> string \<Rightarrow> error + real" where
  "parseSRTTimestamp lib timestamp0 =
     (let timestamp = ReplaceFirst timestamp0 CHR '','' CHR ''.'';
          parts = Split timestamp '':'' in
      if length parts \<noteq> 3 then Inr 0
      else
        case ParseFloat lib (parts ! 0) of None \<Rightarrow> Inl InvalidTimestamp | Some hours \<Rightarrow>
        case ParseFloat lib (parts ! 1) of None \<Rightarrow> Inl InvalidTimestamp | Some minutes \<Rightarrow>
        case ParseFloat lib (parts ! 2) of None \<Rightarrow> Inl InvalidTimestamp | Some seconds \<Rightarrow>
          Inr (hours * 3600 + minutes * 60 + seconds))"

text \<open>Lines 99 to 124.\<close>

definition parseSRTTimeline :: "strconv \<Rightarrow> string \<Rightarrow> error + real \<times> real" where
  "parseSRTTimeline lib line0 =
     (let line = TrimSpace line0;
          parts = Split line ''-->'' in
      if length parts \<noteq> 2 then Inr (0, 0)
      else
        let startTimeStr = TrimSpace (parts ! 0);
            endTimeStr = TrimSpace (parts ! 1) in
        case parseSRTTimestamp lib startTimeStr of Inl err \<Rightarrow> Inl err | Inr startTime \<Rightarrow>
        case parseSRTTimestamp lib endTimeStr of Inl err \<Rightarrow> Inl err | Inr endTime \<Rightarrow>
          Inr (startTime, endTime))"

text \<open>
  The local variables of \<open>parseSRT\<close> (lines 12 to 17); \<open>parseState\<close> is 0 for the
  index, 1 for the timestamp line and 2 for the text.
\<close>

record srtState =
  srt_captions :: "Caption list"
  srt_currentCaption :: Caption
  srt_textLines :: "string list"
  srt_parseState :: nat

text \<open>Setting the text of the current caption and appending it (lines 28 to 29, 86 to 87).\<close>

definition srtAppend :: "srtState \<Rightarrow> srtState" where
  "srtAppend st =
     (let cur = (srt_currentCaption st)\<lparr>Text := Join (srt_textLines st) [CHR 0x0A]\<rparr>
      in st\<lparr>srt_currentCaption := cur, srt_captions := srt_captions st @ [cur]\<rparr>)"

text \<open>One pass of the loop (lines 19 to 82); \<open>Inl\<close> is the early return of line 67.\<close>

definition srtStep :: "strconv \<Rightarrow> srtState \<Rightarrow> string \<Rightarrow> error + srtState" where
  "srtStep lib st line =
     (let trimmedLine = TrimSpace line in
      if trimmedLine = [] then
        (if srt_parseState st > 0
         then Inr ((if length (srt_textLines st) > 0
                    then (srtAppend st)\<lparr>srt_textLines := []\<rparr> else st)\<lparr>srt_parseState := 0\<rparr>)
         else Inr st)
      else if srt_parseState st = 0 then
        (case Atoi lib trimmedLine of
           None \<Rightarrow>
             (let asText = (if length (srt_captions st) > 0
                            then st\<lparr>srt_parseState := 2, srt_textLines := srt_textLines st @ [line]\<rparr>
                            else st)
              in if Contains trimmedLine ''-->'' then
                   (case parseSRTTimeline lib trimmedLine of
                      Inr (startTime, endTime) \<Rightarrow>
                        Inr (st\<lparr>srt_currentCaption :=
                                   \<lparr>Index = int (length (srt_captions st)) + 1,
                                    StartTime = startTime, EndTime = endTime, Text = []\<rparr>,
                                 srt_parseState := 2\<rparr>)
                    | Inl timeErr \<Rightarrow> Inr asText)
                 else Inr asText)
         | Some index \<Rightarrow>
             Inr (st\<lparr>srt_currentCaption := zeroCaption\<lparr>Index := index\<rparr>, srt_parseState := 1\<rparr>))
      else if srt_parseState st = 1 then
        (if Contains trimmedLine ''-->'' then
           (case parseSRTTimeline lib trimmedLine of
              Inl err \<Rightarrow> Inl err
            | Inr (startTime, endTime) \<Rightarrow>
                Inr (st\<lparr>srt_currentCaption :=
                           (srt_currentCaption st)\<lparr>StartTime := startTime, EndTime := endTime\<rparr>,
                         srt_parseState := 2, srt_textLines := []\<rparr>))
         else Inr (st\<lparr>srt_textLines := srt_textLines st @ [line], srt_parseState := 2\<rparr>))
      else Inr (st\<lparr>srt_textLines := srt_textLines st @ [line]\<rparr>))"

fun srtLoop :: "strconv \<Rightarrow> srtState \<Rightarrow> string list \<Rightarrow> error + srtState" where
  "srtLoop lib st [] = Inr st"
| "srtLoop lib st (line # lines) =
     (case srtStep lib st line of Inl err \<Rightarrow> Inl err | Inr st' \<Rightarrow> srtLoop lib st' lines)"

text \<open>Lines 84 to 94: the last caption, then the scanner's error.\<close>

definition srtFinish :: "srtState \<Rightarrow> error option \<Rightarrow> error + Caption list" where
  "srtFinish st scanErr =
     (let captions = (if srt_parseState st > 0 \<and> length (srt_textLines st) > 0
                      then srt_captions (srtAppend st) else srt_captions st)
      in case scanErr of Some err \<Rightarrow> Inl err | None \<Rightarrow> Inr captions)"

definition srtInit :: srtState where
  "srtInit = \<lparr>srt_captions = [], srt_currentCaption = zeroCaption, srt_textLines = [],
              srt_parseState = 0\<rparr>"

text \<open>\<open>parseSRT\<close> (lines 11 to 95) on the bytes of the reader.\<close>

definition parseSRT :: "strconv \<Rightarrow> string \<Rightarrow> error + Caption list" where
  "parseSRT lib r =
     (case scanLines MaxScanTokenSize r of (lines, scanErr) \<Rightarrow>
      case srtLoop lib srtInit lines of
        Inl err \<Rightarrow> Inl err
      | Inr st \<Rightarrow> srtFinish st scanErr)"

section \<open>Plain text (parser/parser.go)\<close>

text \<open>
  \<open>regexp.MustCompile(`<[^>]*>`).ReplaceAllString(s, "")\<close>: the matches are found from
  the left and do not overlap; at a \<open><\<close> the pattern matches up to the next \<open>>\<close>, if
  there is one.
\<close>

function stripTags :: "string \<Rightarrow> string" where
  "stripTags [] = []"
| "stripTags (c # cs) =
     (if c = CHR ''<'' \<and> CHR ''>'' \<in> set cs
      then stripTags (drop 1 (dropWhile (\<lambda>d. d \<noteq> CHR ''>'') cs))
      else c # stripTags cs)"
  by pat_completeness auto
termination
  by (relation "measure length")
    (auto simp: less_Suc_eq_le intro: order_trans [OF diff_le_self length_dropWhile_le])

text \<open>\<open>ExtractPlainText\<close> (lines 108 to 119); the builder is the accumulator.\<close>

definition ExtractPlainText :: "Caption list \<Rightarrow> string" where
  "ExtractPlainText captions =
     TrimSpace (foldl (\<lambda>builder caption. builder @ stripTags (Text caption) @ '' '') [] captions)"

section \<open>Bounded-memory parsers (\<open>parser/large_parser.go\<close>)\<close>

text \<open>The local variable \<open>bufSize\<close>: buffer size and token limit of \<open>scanner.Buffer\<close>.\<close>

definition bufSize :: nat where
  "bufSize = 64 * 1024"

text \<open>One pass of the cue loop of \<open>parseChunkedWebVTT\<close> (lines 72 to 113).\<close>

definition chunkedVttStep :: "strconv \<Rightarrow> vttState \<Rightarrow> string \<Rightarrow> error + vttState" where
  "chunkedVttStep lib st line =
     (if line = [] then
        (if vtt_inCaption st
         then Inr ((vttAppend st)\<lparr>vtt_textLines := [], vtt_index := vtt_index st + 1,
                                   vtt_inCaption := False\<rparr>)
         else Inr st)
      else if Contains line ''-->'' then
        (let st1 = (if vtt_inCaption st
                    then (vttAppend st)\<lparr>vtt_textLines := [], vtt_index := vtt_index st + 1\<rparr>
                    else st)
         in case parseWebVTTTimeline lib line of
              Inl err \<Rightarrow> Inl err
            | Inr (startTime, endTime) \<Rightarrow>
                Inr (st1\<lparr>vtt_currentCaption := zeroCaption\<lparr>StartTime := startTime, EndTime := endTime\<rparr>,
                         vtt_inCaption := True\<rparr>))
      else if vtt_inCaption st then Inr (st\<lparr>vtt_textLines := vtt_textLines st @ [line]\<rparr>)
      else Inr st)"

fun chunkedVttLoop :: "strconv \<Rightarrow> vttState \<Rightarrow> string list \<Rightarrow> error + vttState" where
  "chunkedVttLoop lib st [] = Inr st"
| "chunkedVttLoop lib st (line # lines) =
     (case chunkedVttStep lib st line of
        Inl err \<Rightarrow> Inl err
      | Inr st' \<Rightarrow> chunkedVttLoop lib st' lines)"

text \<open>\<open>parseChunkedWebVTT\<close> (lines 44 to 127); an input without a line gives \<open>io.EOF\<close>.\<close>

definition parseChunkedWebVTT :: "strconv \<Rightarrow> string \<Rightarrow> error + Caption list" where
  "parseChunkedWebVTT lib r =
     (case scanLines bufSize r of (lines, scanErr) \<Rightarrow>
      case lines of
        [] \<Rightarrow> Inl EOF
      | first # rest \<Rightarrow>
          if \<not> HasPrefix first ''WEBVTT'' then Inl MissingHeader
          else
            case chunkedVttLoop lib \<lparr>vtt_captions = [], vtt_currentCaption = zeroCaption,
                               vtt_inCaption = False, vtt_textLines = [], vtt_index = 1\<rparr>
                   (drop 1 (dropWhile (\<lambda>l. l \<noteq> []) rest)) of
              Inl err \<Rightarrow> Inl err
            | Inr st \<Rightarrow>
                let captions = (if vtt_inCaption st then vtt_captions (vttAppend st)
                                else vtt_captions st)
                in case scanErr of Some err \<Rightarrow> Inl err | None \<Rightarrow> Inr captions)"

text \<open>One pass of the loop of \<open>parseChunkedSRT\<close> (lines 140 to 201).\<close>

definition chunkedSrtStep :: "strconv \<Rightarrow> srtState \<Rightarrow> string \<Rightarrow> error + srtState" where
  "chunkedSrtStep lib st line =
     (let trimmedLine = TrimSpace line in
      if trimmedLine = [] then
        (if srt_parseState st > 0
         then Inr ((if length (srt_textLines st) > 0
                    then (srtAppend st)\<lparr>srt_textLines := []\<rparr> else st)\<lparr>srt_parseState := 0\<rparr>)
         else Inr st)
      else if srt_parseState st = 0 then
        (case Atoi lib trimmedLine of
           None \<Rightarrow>
             (let asText = (if length (srt_captions st) > 0
                            then st\<lparr>srt_parseState := 2, srt_textLines := srt_textLines st @ [line]\<rparr>
                            else st)
              in if Contains trimmedLine ''-->'' then
                   (case parseSRTTimeline lib trimmedLine of
                      Inr (startTime, endTime) \<Rightarrow>
                        Inr (st\<lparr>srt_currentCaption :=
                                   \<lparr>Index = int (length (srt_captions st)) + 1,
                                    StartTime = startTime, EndTime = endTime, Text = []\<rparr>,
                                 srt_parseState := 2\<rparr>)
                    | Inl timeErr \<Rightarrow> Inr asText)
                 else Inr asText)
         | Some index \<Rightarrow>
             Inr (st\<lparr>srt_currentCaption := zeroCaption\<lparr>Index := index\<rparr>, srt_parseState := 1\<rparr>))
      else if srt_parseState st = 1 then
        (if Contains trimmedLine ''-->'' then
           (case parseSRTTimeline lib trimmedLine of
              Inl err \<Rightarrow> Inl err
            | Inr (startTime, endTime) \<Rightarrow>
                Inr (st\<lparr>srt_currentCaption :=
                           (srt_currentCaption st)\<lparr>StartTime := startTime, EndTime := endTime\<rparr>,
                         srt_parseState := 2, srt_textLines := []\<rparr>))
         else Inr (st\<lparr>srt_textLines := srt_textLines st @ [line], srt_parseState := 2\<rparr>))
      else Inr (st\<lparr>srt_textLines := srt_textLines st @ [line]\<rparr>))"

fun chunkedSrtLoop :: "strconv \<Rightarrow> srtState \<Rightarrow> string list \<Rightarrow> error + srtState" where
  "chunkedSrtLoop lib st [] = Inr st"
| "chunkedSrtLoop lib st (line # lines) =
     (case chunkedSrtStep lib st line of
        Inl err \<Rightarrow> Inl err
      | Inr st' \<Rightarrow> chunkedSrtLoop lib st' lines)"

text \<open>\<open>parseChunkedSRT\<close> (lines 130 to 214).\<close>

definition parseChunkedSRT :: "strconv \<Rightarrow> string \<Rightarrow> error + Caption list" where
  "parseChunkedSRT lib r =
     (case scanLines bufSize r of (lines, scanErr) \<Rightarrow>
      case chunkedSrtLoop lib srtInit lines of
        Inl err \<Rightarrow> Inl err
      | Inr st \<Rightarrow> srtFinish st scanErr)"

section \<open>Conversions and inputs for the evaluations\<close>

text \<open>
  For the evaluations on concrete inputs: the conversions on plain decimal numerals,
  where they agree with Go's. \<open>decimalFloat\<close> reads an optional sign and digits with an
  optional fraction (\<open>12\<close>, \<open>01.500\<close>, \<open>.5\<close>, \<open>3.\<close>); \<open>decimalInt\<close> reads an
  optional sign and digits, within the range of a 64-bit \<open>int\<close>. Every other string is
  an error here (Go's \<open>ParseFloat\<close> also reads exponents, hexadecimal numerals,
  infinities and NaN).
\<close>

definition isDigit :: "char \<Rightarrow> bool" where
  "isDigit c \<longleftrightarrow> (48::nat) \<le> of_char c \<and> of_char c \<le> (57::nat)"

definition digitsValue :: "string \<Rightarrow> nat" where
  "digitsValue ds = foldl (\<lambda>n d. 10 * n + (of_char d - 48)) 0 ds"

definition unsignedFloat :: "string \<Rightarrow> real option" where
  "unsignedFloat s =
     (let ip = takeWhile (\<lambda>c. c \<noteq> CHR ''.'') s;
          fp = drop 1 (dropWhile (\<lambda>c. c \<noteq> CHR ''.'') s)
      in if ip @ fp \<noteq> [] \<and> list_all isDigit (ip @ fp)
         then Some (real (digitsValue ip) + real (digitsValue fp) / 10 ^ length fp)
         else None)"

definition decimalFloat :: "string \<Rightarrow> real option" where
  "decimalFloat s =
     (case s of
        [] \<Rightarrow> None
      | c # cs \<Rightarrow>
          if c = CHR ''-'' then map_option uminus (unsignedFloat cs)
          else if c = CHR ''+'' then unsignedFloat cs
          else unsignedFloat s)"

definition unsignedInt :: "string \<Rightarrow> int option" where
  "unsignedInt s = (if s \<noteq> [] \<and> list_all isDigit s then Some (int (digitsValue s)) else None)"

definition decimalInt :: "string \<Rightarrow> int option" where
  "decimalInt s =
     (let v = (case s of
                 [] \<Rightarrow> None
               | c # cs \<Rightarrow>
                   if c = CHR ''-'' then map_option uminus (unsignedInt cs)
                   else if c = CHR ''+'' then unsignedInt cs
                   else unsignedInt s)
      in case v of
           None \<Rightarrow> None
         | Some n \<Rightarrow> if - (2 ^ 63) \<le> n \<and> n < 2 ^ 63 then Some n else None)"

definition decimalStrconv :: strconv where
  "decimalStrconv = \<lparr>ParseFloat = decimalFloat, Atoi = decimalInt\<rparr>"

text \<open>An input text from its lines: each line is followed by a line feed.\<close>

definition unlines :: "string list \<Rightarrow> string" where
  "unlines ls = concat (map (\<lambda>l. l @ [CHR 0x0A]) ls)"

text \<open>Example captions for the evaluations below: index 1, text \<open>x\<close>.\<close>

definition mkCaption :: "real \<Rightarrow> real \<Rightarrow> Caption" where
  "mkCaption s e = \<lparr>Index = 1, StartTime = s, EndTime = e, Text = ''x''\<rparr>"

section \<open>Notions of the statements\<close>


definition seg_union :: "timeSegment list \<Rightarrow> real set" where
  "seg_union segs = (\<Union>s\<in>set segs. {seg_start s .. seg_end s})"

definition total_length :: "timeSegment list \<Rightarrow> real" where
  "total_length segs = (\<Sum>s\<leftarrow>segs. seg_end s - seg_start s)"






text \<open>A numeric field of the returned result; \<open>None\<close> when the call failed.\<close>

definition result_field :: "string \<Rightarrow> error + ValidationResult \<Rightarrow> real option" where
  "result_field k res = (case res of Inl e \<Rightarrow> None | Inr r \<Rightarrow> Data r k)"

text \<open>
  \<open>hours * 3600 + minutes * 60 + seconds\<close> of the components of a timestamp, with
  \<open>hours = 0\<close> for two components.
\<close>

fun timestampValue :: "real list \<Rightarrow> real" where
  "timestampValue [hours, minutes, seconds] = hours * 3600 + minutes * 60 + seconds"
| "timestampValue [minutes, seconds] = 0 * 3600 + minutes * 60 + seconds"
| "timestampValue components = 0"

text \<open>The first line the scanner delivers, if there is one.\<close>

definition firstLine :: "string \<Rightarrow> string option" where
  "firstLine r = (case fst (scanLines MaxScanTokenSize r) of [] \<Rightarrow> None | first # rest \<Rightarrow> Some first)"

text \<open>The first non-empty line the scanner delivers, if there is one.\<close>

definition firstNonEmptyLine :: "string \<Rightarrow> string option" where
  "firstNonEmptyLine r = find (\<lambda>l. l \<noteq> []) (fst (scanLines MaxScanTokenSize r))"

text \<open>
  A well-formed cue block of Format B: an index line that \<open>Atoi\<close> accepts, a timeline
  line with the arrow that \<open>parseSRTTimeline\<close> accepts, and at least one text line, none
  of them blank.
\<close>

definition wellFormedBlock :: "strconv \<Rightarrow> string \<Rightarrow> string \<Rightarrow> string list \<Rightarrow> bool" where
  "wellFormedBlock lib indexLine timeline textLines \<longleftrightarrow>
     TrimSpace indexLine \<noteq> [] \<and> Atoi lib (TrimSpace indexLine) \<noteq> None \<and>
     Contains (TrimSpace timeline) ''-->'' \<and> \<not> isl (parseSRTTimeline lib (TrimSpace timeline)) \<and>
     textLines \<noteq> [] \<and> list_all (\<lambda>l. TrimSpace l \<noteq> []) textLines"

text \<open>The captions of a parse, \<open>None\<close> when it failed.\<close>

definition captions_of :: "error + Caption list \<Rightarrow> Caption list option" where
  "captions_of res = (case res of Inl err \<Rightarrow> None | Inr captions \<Rightarrow> Some captions)"

text \<open>
  A string that consists of white space runes only; a string that starts, or ends, with a
  white space rune.
\<close>

definition onlySpace :: "string \<Rightarrow> bool" where
  "onlySpace s \<longleftrightarrow> (\<exists>es. set es \<subseteq> set whiteSpace \<and> s = concat es)"

definition startsWithSpace :: "string \<Rightarrow> bool" where
  "startsWithSpace s \<longleftrightarrow> list_ex (\<lambda>e. HasPrefix s e) whiteSpace"

definition endsWithSpace :: "string \<Rightarrow> bool" where
  "endsWithSpace s \<longleftrightarrow> list_ex (\<lambda>e. HasPrefix (rev s) (rev e)) whiteSpace"

text \<open>A markup-like span is left in a string: a \<open><\<close> with a \<open>>\<close> somewhere after it.\<close>

fun hasSpan :: "string \<Rightarrow> bool" where
  "hasSpan [] = False"
| "hasSpan (c # cs) = ((c = CHR ''<'' \<and> CHR ''>'' \<in> set cs) \<or> hasSpan cs)"

section \<open>Properties of the coverage engine\<close>

subsection \<open>The exchange sort sorts by start time and permutes the segments\<close>








subsection \<open>The merge loop\<close>

lemma seg_union_simps [simp]:
  "seg_union [] = {}"
  "seg_union (s # segs) = {seg_start s .. seg_end s} \<union> seg_union segs"
  "seg_union (xs @ ys) = seg_union xs \<union> seg_union ys"
  by (auto simp: seg_union_def)

lemma total_length_simps [simp]:
  "total_length [] = 0"
  "total_length (s # segs) = (seg_end s - seg_start s) + total_length segs"
  "total_length (xs @ ys) = total_length xs + total_length ys"
  by (auto simp: total_length_def)










subsection \<open>Length of a union of intervals\<close>











subsection \<open>The covered time\<close>






subsection \<open>Statements about \<open>ValidateCoverage\<close>\<close>












text \<open>
  Claim C4. \<open>ValidateCoverage\<close> fails exactly when \<open>endTime \<le> startTime\<close>, and then
  with \<open>InvalidRange\<close>. For a window with \<open>startTime < endTime\<close>, an empty caption
  list, or a list in which no caption overlaps the window (each one ends at or before
  the window's start, or starts at or after its end), gives a normal result with
  \<open>actual_coverage = 0\<close> and \<open>covered_time = 0\<close>.
\<close>

theorem ValidateCoverage_error_iff:
  "(isl (ValidateCoverage captions S E minCoverage) \<longleftrightarrow> E \<le> S) \<and>
   (E \<le> S \<longrightarrow> ValidateCoverage captions S E minCoverage = Inl InvalidRange) \<and>
   (S < E \<and> (captions = [] \<or> (\<forall>c\<in>set captions. EndTime c \<le> S \<or> StartTime c \<ge> E)) \<longrightarrow>
      (\<exists>r. ValidateCoverage captions S E minCoverage = Inr r \<and>
           Data r ''actual_coverage'' = Some 0 \<and> Data r ''covered_time'' = Some 0 \<and>
           Valid r = (minCoverage \<le> 0)))"
proof -
  have 1: "isl (ValidateCoverage captions S E minCoverage) \<longleftrightarrow> E \<le> S"
    by (simp add: ValidateCoverage_def Let_def)
  have 2: "E \<le> S \<longrightarrow> ValidateCoverage captions S E minCoverage = Inl InvalidRange"
    by (simp add: ValidateCoverage_def)
  have 3: "\<exists>r. ValidateCoverage captions S E minCoverage = Inr r \<and>
           Data r ''actual_coverage'' = Some 0 \<and> Data r ''covered_time'' = Some 0 \<and>
           Valid r = (minCoverage \<le> 0)"
    if w: "S < E" and out: "captions = [] \<or> (\<forall>c\<in>set captions. EndTime c \<le> S \<or> StartTime c \<ge> E)"
  proof -
    have "\<forall>c\<in>set captions. EndTime c \<le> S \<or> StartTime c \<ge> E" using out by auto
    then have "collectSegments captions S E = []" by (induction captions) auto
    then have c: "coveredTime captions S E = 0"
      by (simp add: coveredTime_def mergeOverlapping_def sumSegments_def)
    show ?thesis
      using w c by (simp add: ValidateCoverage_def Let_def go_round_def)
  qed
  from 1 2 3 show ?thesis by blast
qed

text \<open>
  The theorem at the "No coverage" and "Invalid time range" cases of the coverage
  tests.
\<close>

theorem ValidateCoverage_error_iff_witness:
  "(0::real) < 5 \<and>
   list_all (\<lambda>c. EndTime c \<le> 0 \<or> StartTime c \<ge> 5)
     [mkCaption 10 20, mkCaption 25 35, mkCaption 40 55] \<and>
   result_field ''actual_coverage''
     (ValidateCoverage [mkCaption 10 20, mkCaption 25 35, mkCaption 40 55] 0 5 1) = Some 0 \<and>
   result_field ''covered_time''
     (ValidateCoverage [mkCaption 10 20, mkCaption 25 35, mkCaption 40 55] 0 5 1) = Some 0 \<and>
   \<not> isl (ValidateCoverage [mkCaption 10 20, mkCaption 25 35, mkCaption 40 55] 0 5 1) \<and>
   (5::real) \<le> 10 \<and>
   ValidateCoverage [mkCaption 10 20, mkCaption 25 35, mkCaption 40 55] 10 5 90 = Inl InvalidRange"
proof -
  let ?caps = "[mkCaption 10 20, mkCaption 25 35, mkCaption 40 55]"
  have h1: "(0::real) < 5" by simp
  have h2: "\<forall>c\<in>set ?caps. EndTime c \<le> 0 \<or> StartTime c \<ge> 5" by (simp add: mkCaption_def)
  note t = ValidateCoverage_error_iff [of ?caps 0 5 1]
  from t h1 h2 obtain r where r: "ValidateCoverage ?caps 0 5 1 = Inr r"
    "Data r ''actual_coverage'' = Some 0" "Data r ''covered_time'' = Some 0"
    by blast
  have e: "ValidateCoverage ?caps 10 5 90 = Inl InvalidRange"
    using ValidateCoverage_error_iff [of ?caps 10 5 90] by simp
  have l: "list_all (\<lambda>c. EndTime c \<le> 0 \<or> StartTime c \<ge> 5) ?caps"
    using h2 by (simp only: list_all_iff)
  have f: "result_field ''actual_coverage'' (ValidateCoverage ?caps 0 5 1) = Some 0"
    "result_field ''covered_time'' (ValidateCoverage ?caps 0 5 1) = Some 0"
    "\<not> isl (ValidateCoverage ?caps 0 5 1)"
    using r by (simp_all add: result_field_def)
  have le: "(5::real) \<le> 10" by simp
  from h1 l f le e show ?thesis by blast
qed



section \<open>Properties of the parsers\<close>

text \<open>The equations that evaluate the library functions on concrete strings.\<close>

lemmas strings_eval = Split_def splitFrom.simps TrimSpace_def TrimLeftSpace_def TrimRightSpace_def
  trimRunes.simps whiteSpace_def

lemmas decimal_eval = decimalStrconv_def decimalFloat_def unsignedFloat_def decimalInt_def
  unsignedInt_def isDigit_def digitsValue_def

lemmas scan_eval = scanLines_def MaxScanTokenSize_def dropCR_def unlines_def

subsection \<open>Splitting and searching\<close>

lemma splitFrom_no_sep: "\<not> Contains s sep \<Longrightarrow> splitFrom sep cur s = [cur @ s]"
proof (induction s arbitrary: cur)
  case Nil
  then show ?case by (subst splitFrom.simps) simp
next
  case (Cons c cs)
  then have "\<not> HasPrefix (c # cs) sep" "\<not> Contains cs sep" by simp_all
  then show ?case using Cons.IH [of "cur @ [c]"] by (subst splitFrom.simps) simp
qed

lemma Split_no_sep: "\<not> Contains s sep \<Longrightarrow> Split s sep = [s]"
  by (simp add: Split_def splitFrom_no_sep)

lemma HasPrefix_append: "HasPrefix s p \<Longrightarrow> HasPrefix (s @ t) p"
  by (induction s p rule: HasPrefix.induct) auto

lemma Contains_Nil [simp]: "Contains s []"
  by (cases s) auto

lemma Contains_append_right: "Contains s sub \<Longrightarrow> Contains (s @ t) sub"
proof (induction s)
  case Nil
  then show ?case by simp
next
  case (Cons c cs)
  then show ?case using HasPrefix_append [of "c # cs" sub t] by auto
qed

lemma Contains_append_left: "Contains t sub \<Longrightarrow> Contains (s @ t) sub"
  by (induction s) auto

subsection \<open>Trimming\<close>

lemma HasPrefix_iff: "HasPrefix s e \<longleftrightarrow> (\<exists>t. s = e @ t)"
  by (induction s e rule: HasPrefix.induct) auto

lemma trimRunes_unfold:
  "find (\<lambda>e. e \<noteq> [] \<and> HasPrefix s e) runes = None \<Longrightarrow> trimRunes runes s = s"
  "find (\<lambda>e. e \<noteq> [] \<and> HasPrefix s e) runes = Some e \<Longrightarrow>
     trimRunes runes s = trimRunes runes (drop (length e) s)"
  by (subst trimRunes.simps, simp)+

text \<open>What is trimmed is a sequence of runes of the list, and no rune is left in front.\<close>

lemma trimRunes_decomp:
  "\<exists>es. set es \<subseteq> set runes \<and> s = concat es @ trimRunes runes s"
proof (induction runes s rule: trimRunes.induct)
  case (1 runes s)
  show ?case
  proof (cases "find (\<lambda>e. e \<noteq> [] \<and> HasPrefix s e) runes")
    case None
    then have "trimRunes runes s = s" by (rule trimRunes_unfold)
    then show ?thesis by (intro exI [of _ "[]"]) simp
  next
    case (Some e)
    then have e: "e \<in> set runes" "HasPrefix s e" by (auto simp: find_Some_iff)
    then obtain t where s: "s = e @ t" by (auto simp: HasPrefix_iff)
    from "1.IH" [OF Some] obtain es where es: "set es \<subseteq> set runes"
      "drop (length e) s = concat es @ trimRunes runes (drop (length e) s)" by blast
    have "trimRunes runes s = trimRunes runes (drop (length e) s)" using Some by (rule trimRunes_unfold)
    then have "s = concat (e # es) @ trimRunes runes s" using es(2) s by simp
    moreover have "set (e # es) \<subseteq> set runes" using e(1) es(1) by simp
    ultimately show ?thesis by blast
  qed
qed

lemma trimRunes_no_rune:
  "find (\<lambda>e. e \<noteq> [] \<and> HasPrefix (trimRunes runes s) e) runes = None"
proof (induction runes s rule: trimRunes.induct)
  case (1 runes s)
  show ?case
  proof (cases "find (\<lambda>e. e \<noteq> [] \<and> HasPrefix s e) runes")
    case None
    then show ?thesis by (simp add: trimRunes_unfold)
  next
    case (Some e)
    then show ?thesis using "1.IH" [OF Some] by (simp add: trimRunes_unfold)
  qed
qed

lemma trimRunes_idem: "trimRunes runes (trimRunes runes s) = trimRunes runes s"
  using trimRunes_no_rune [of runes s] by (rule trimRunes_unfold)

lemma whiteSpace_nonempty: "e \<in> set whiteSpace \<Longrightarrow> e \<noteq> []"
  by (auto simp: whiteSpace_def)

lemma TrimLeftSpace_decomp: "\<exists>a. onlySpace a \<and> s = a @ TrimLeftSpace s"
  using trimRunes_decomp [of whiteSpace s] unfolding onlySpace_def TrimLeftSpace_def by blast

lemma TrimRightSpace_decomp: "\<exists>b. onlySpace b \<and> s = TrimRightSpace s @ b"
proof -
  from trimRunes_decomp [of "map rev whiteSpace" "rev s"]
  obtain es where es: "set es \<subseteq> set (map rev whiteSpace)"
    "rev s = concat es @ trimRunes (map rev whiteSpace) (rev s)" by blast
  have "s = rev (rev s)" by simp
  also have "\<dots> = TrimRightSpace s @ rev (concat es)"
    by (subst es(2)) (simp add: TrimRightSpace_def)
  finally have s: "s = TrimRightSpace s @ rev (concat es)" .
  have "rev (concat es) = concat (map rev (rev es))" by (simp add: rev_concat)
  moreover have "set (map rev (rev es)) \<subseteq> set whiteSpace" using es(1) by auto
  ultimately have "onlySpace (rev (concat es))" unfolding onlySpace_def by blast
  then show ?thesis using s by blast
qed

lemma TrimSpace_decomp: "\<exists>a b. onlySpace a \<and> onlySpace b \<and> s = a @ TrimSpace s @ b"
proof -
  obtain a where a: "onlySpace a" "s = a @ TrimLeftSpace s" using TrimLeftSpace_decomp by blast
  obtain b where b: "onlySpace b" "TrimLeftSpace s = TrimRightSpace (TrimLeftSpace s) @ b"
    using TrimRightSpace_decomp by blast
  have "s = a @ TrimSpace s @ b" using a(2) b(2) by (simp add: TrimSpace_def)
  then show ?thesis using a(1) b(1) by blast
qed

lemma TrimLeftSpace_no_space: "\<not> startsWithSpace (TrimLeftSpace s)"
proof -
  have "find (\<lambda>e. e \<noteq> [] \<and> HasPrefix (TrimLeftSpace s) e) whiteSpace = None"
    unfolding TrimLeftSpace_def by (rule trimRunes_no_rune)
  then show ?thesis
    by (auto simp: startsWithSpace_def find_None_iff list_ex_iff whiteSpace_nonempty)
qed

lemma TrimRightSpace_no_space: "\<not> endsWithSpace (TrimRightSpace s)"
proof -
  have "find (\<lambda>e. e \<noteq> [] \<and> HasPrefix (trimRunes (map rev whiteSpace) (rev s)) e) (map rev whiteSpace) = None"
    by (rule trimRunes_no_rune)
  then show ?thesis
    by (auto simp: endsWithSpace_def TrimRightSpace_def find_None_iff list_ex_iff whiteSpace_nonempty)
qed

lemma TrimSpace_no_space: "\<not> startsWithSpace (TrimSpace s) \<and> \<not> endsWithSpace (TrimSpace s)"
proof -
  obtain b where b: "TrimLeftSpace s = TrimSpace s @ b"
    using TrimRightSpace_decomp [of "TrimLeftSpace s"] by (auto simp: TrimSpace_def)
  have "\<not> startsWithSpace (TrimSpace s)"
  proof
    assume "startsWithSpace (TrimSpace s)"
    then have "startsWithSpace (TrimSpace s @ b)"
      by (auto simp: startsWithSpace_def list_ex_iff intro: HasPrefix_append)
    then show False using b TrimLeftSpace_no_space [of s] by simp
  qed
  moreover have "\<not> endsWithSpace (TrimSpace s)"
    unfolding TrimSpace_def by (rule TrimRightSpace_no_space)
  ultimately show ?thesis by simp
qed

lemma Contains_TrimSpace: "Contains (TrimSpace s) sub \<Longrightarrow> Contains s sub"
proof -
  assume c: "Contains (TrimSpace s) sub"
  obtain a b where "s = a @ TrimSpace s @ b" using TrimSpace_decomp by blast
  then show ?thesis
    using Contains_append_left [OF Contains_append_right [OF c, of b], of a] by simp
qed

lemma whiteSpace_last_space: "e \<in> set whiteSpace \<Longrightarrow> last e = CHR 0x20 \<Longrightarrow> e = [CHR 0x20]"
  by (auto simp: whiteSpace_def)

lemma HasPrefix_append_space:
  assumes "s \<noteq> []" "e \<in> set whiteSpace"
  shows "HasPrefix (s @ [CHR 0x20]) e \<longleftrightarrow> HasPrefix s e"
proof
  assume "HasPrefix s e"
  then show "HasPrefix (s @ [CHR 0x20]) e" by (rule HasPrefix_append)
next
  assume "HasPrefix (s @ [CHR 0x20]) e"
  then obtain t where t: "s @ [CHR 0x20] = e @ t" by (auto simp: HasPrefix_iff)
  show "HasPrefix s e"
  proof (cases t rule: rev_cases)
    case Nil
    then have e: "e = s @ [CHR 0x20]" using t by simp
    then have "last e = CHR 0x20" by simp
    then have "e = [CHR 0x20]" using assms(2) by (rule whiteSpace_last_space [rotated])
    then show ?thesis using e assms(1) by simp
  next
    case (snoc t' c)
    then have "s = e @ t'" using t by simp
    then show ?thesis by (auto simp: HasPrefix_iff)
  qed
qed

lemma TrimLeftSpace_Nil [simp]: "TrimLeftSpace [] = []"
  by (simp add: TrimLeftSpace_def trimRunes.simps whiteSpace_def)

lemma TrimLeftSpace_append_space:
  "TrimLeftSpace (s @ [CHR 0x20]) =
     (if TrimLeftSpace s = [] then [] else TrimLeftSpace s @ [CHR 0x20])"
proof (induction s rule: length_induct)
  case (1 s)
  show ?case
  proof (cases "s = []")
    case True
    then show ?thesis by (simp add: TrimLeftSpace_def trimRunes.simps whiteSpace_def)
  next
    case False
    have eq: "find (\<lambda>e. e \<noteq> [] \<and> HasPrefix (s @ [CHR 0x20]) e) whiteSpace =
              find (\<lambda>e. e \<noteq> [] \<and> HasPrefix s e) whiteSpace"
      using HasPrefix_append_space [OF False] by (intro find_cong) auto
    show ?thesis
    proof (cases "find (\<lambda>e. e \<noteq> [] \<and> HasPrefix s e) whiteSpace")
      case None
      then have "TrimLeftSpace s = s" "TrimLeftSpace (s @ [CHR 0x20]) = s @ [CHR 0x20]"
        using eq by (simp_all add: TrimLeftSpace_def trimRunes_unfold)
      then show ?thesis using False by simp
    next
      case (Some e)
      then have e: "e \<noteq> []" "HasPrefix s e" by (auto simp: find_Some_iff)
      then obtain t where s: "s = e @ t" by (auto simp: HasPrefix_iff)
      have l: "TrimLeftSpace s = TrimLeftSpace t"
        using Some s by (simp add: TrimLeftSpace_def trimRunes_unfold(2))
      have "TrimLeftSpace (s @ [CHR 0x20]) = trimRunes whiteSpace (drop (length e) (s @ [CHR 0x20]))"
        unfolding TrimLeftSpace_def using Some eq by (intro trimRunes_unfold(2)) simp
      then have r: "TrimLeftSpace (s @ [CHR 0x20]) = TrimLeftSpace (t @ [CHR 0x20])"
        using s by (simp add: TrimLeftSpace_def)
      have "length t < length s" using s e(1) by simp
      then show ?thesis using "1.IH" l r by simp
    qed
  qed
qed

lemma TrimRightSpace_append_space: "TrimRightSpace (t @ [CHR 0x20]) = TrimRightSpace t"
proof -
  have "find (\<lambda>e. e \<noteq> [] \<and> HasPrefix (CHR 0x20 # rev t) e) (map rev whiteSpace) = Some [CHR 0x20]"
    by (simp add: whiteSpace_def)
  then have "trimRunes (map rev whiteSpace) (CHR 0x20 # rev t) =
             trimRunes (map rev whiteSpace) (drop (length [CHR 0x20]) (CHR 0x20 # rev t))"
    by (rule trimRunes_unfold(2))
  then show ?thesis by (simp add: TrimRightSpace_def)
qed

lemma TrimRightSpace_Nil [simp]: "TrimRightSpace [] = []"
  by (simp add: TrimRightSpace_def trimRunes.simps whiteSpace_def)

subsection \<open>Timestamps\<close>

lemma length_3: "length xs = 3 \<longleftrightarrow> (\<exists>a b c. xs = [a, b, c])"
  by (cases xs; cases "tl xs"; cases "tl (tl xs)") auto

lemma length_2: "length xs = 2 \<longleftrightarrow> (\<exists>a b. xs = [a, b])"
  by (cases xs; cases "tl xs") auto

lemma parseWebVTTTimestamp_char:
  "parseWebVTTTimestamp lib timestamp =
     (let parts = Split timestamp '':'' in
      if (length parts = 2 \<or> length parts = 3) \<and> (\<forall>p\<in>set parts. ParseFloat lib p \<noteq> None)
      then Inr (timestampValue (map (\<lambda>p. the (ParseFloat lib p)) parts))
      else Inl InvalidTimestamp)"
proof -
  consider (three) a b c where "Split timestamp '':'' = [a, b, c]"
    | (two) a b where "Split timestamp '':'' = [a, b]"
    | (other) "length (Split timestamp '':'') \<noteq> 2" "length (Split timestamp '':'') \<noteq> 3"
    using length_3 length_2 by metis
  then show ?thesis
  proof cases
    case three
    then show ?thesis
      by (auto simp: parseWebVTTTimestamp_def Let_def split: option.splits)
  next
    case two
    then show ?thesis
      by (auto simp: parseWebVTTTimestamp_def Let_def split: option.splits)
  next
    case other
    then show ?thesis by (simp add: parseWebVTTTimestamp_def Let_def)
  qed
qed

lemma parseSRTTimestamp_char:
  "parseSRTTimestamp lib timestamp =
     (let parts = Split (ReplaceFirst timestamp CHR '','' CHR ''.'') '':'' in
      if length parts = 3
      then (if \<forall>p\<in>set parts. ParseFloat lib p \<noteq> None
            then Inr (timestampValue (map (\<lambda>p. the (ParseFloat lib p)) parts))
            else Inl InvalidTimestamp)
      else Inr 0)"
proof (cases "length (Split (ReplaceFirst timestamp CHR '','' CHR ''.'') '':'') = 3")
  case True
  then obtain a b c where "Split (ReplaceFirst timestamp CHR '','' CHR ''.'') '':'' = [a, b, c]"
    using length_3 by metis
  then show ?thesis
    by (auto simp: parseSRTTimestamp_def Let_def split: option.splits)
next
  case False
  then show ?thesis by (simp add: parseSRTTimestamp_def Let_def)
qed

text \<open>
  Claim C2, as amended. The Format A timestamp parser fails with \<open>InvalidTimestamp\<close>
  whenever the number of colon-separated components is neither 2 nor 3, or a component
  is not numeric (\<open>ParseFloat\<close> rejects it); otherwise it returns
  \<open>hours * 3600 + minutes * 60 + seconds\<close>, with \<open>hours = 0\<close> for two components. The
  Format B timestamp parser replaces the first comma by a period and reads the
  three-component form only: with three components it fails with \<open>InvalidTimestamp\<close>
  when one is not numeric and returns \<open>hours * 3600 + minutes * 60 + seconds\<close>
  otherwise; with any other number of components it returns 0 and no error.
\<close>

theorem timestamp_parsing:
  "parseWebVTTTimestamp lib timestamp =
     (let parts = Split timestamp '':'' in
      if (length parts = 2 \<or> length parts = 3) \<and> (\<forall>p\<in>set parts. ParseFloat lib p \<noteq> None)
      then Inr (timestampValue (map (\<lambda>p. the (ParseFloat lib p)) parts))
      else Inl InvalidTimestamp) \<and>
   parseSRTTimestamp lib timestamp =
     (let parts = Split (ReplaceFirst timestamp CHR '','' CHR ''.'') '':'' in
      if length parts = 3
      then (if \<forall>p\<in>set parts. ParseFloat lib p \<noteq> None
            then Inr (timestampValue (map (\<lambda>p. the (ParseFloat lib p)) parts))
            else Inl InvalidTimestamp)
      else Inr 0)"
  using parseWebVTTTimestamp_char parseSRTTimestamp_char by blast

text \<open>The theorem at timestamps of two, three and four components, with the decimal conversions.\<close>

theorem timestamp_parsing_witness:
  "parseWebVTTTimestamp decimalStrconv ''01:02:03.500'' = Inr (1 * 3600 + 2 * 60 + 7 / 2) \<and>
   parseWebVTTTimestamp decimalStrconv ''02:03.500'' = Inr (0 * 3600 + 2 * 60 + 7 / 2) \<and>
   parseWebVTTTimestamp decimalStrconv ''01:02:03:04'' = Inl InvalidTimestamp \<and>
   parseWebVTTTimestamp decimalStrconv ''01:xx:03'' = Inl InvalidTimestamp \<and>
   parseSRTTimestamp decimalStrconv ''01:02:03,500'' = Inr (1 * 3600 + 2 * 60 + 7 / 2) \<and>
   parseSRTTimestamp decimalStrconv ''01:xx:03,500'' = Inl InvalidTimestamp"
proof -
  have s: "Split ''01:02:03.500'' '':'' = [''01'', ''02'', ''03.500'']"
    "Split ''02:03.500'' '':'' = [''02'', ''03.500'']"
    "Split ''01:02:03:04'' '':'' = [''01'', ''02'', ''03'', ''04'']"
    "Split ''01:xx:03'' '':'' = [''01'', ''xx'', ''03'']"
    "Split ''01:xx:03.500'' '':'' = [''01'', ''xx'', ''03.500'']"
    by (simp_all add: strings_eval)
  have r: "ReplaceFirst ''01:02:03,500'' CHR '','' CHR ''.'' = ''01:02:03.500''"
    "ReplaceFirst ''01:xx:03,500'' CHR '','' CHR ''.'' = ''01:xx:03.500''"
    by simp_all
  have p: "ParseFloat decimalStrconv ''01'' = Some 1"
    "ParseFloat decimalStrconv ''02'' = Some 2"
    "ParseFloat decimalStrconv ''03'' = Some 3"
    "ParseFloat decimalStrconv ''03.500'' = Some (7 / 2)"
    "ParseFloat decimalStrconv ''xx'' = None"
    by (simp_all add: decimal_eval)
  note t = timestamp_parsing [of decimalStrconv]
  have 1: "parseWebVTTTimestamp decimalStrconv ''01:02:03.500'' = Inr (1 * 3600 + 2 * 60 + 7 / 2)"
    using t [of "''01:02:03.500''"] by (simp add: s p del: not_None_eq)
  have 2: "parseWebVTTTimestamp decimalStrconv ''02:03.500'' = Inr (0 * 3600 + 2 * 60 + 7 / 2)"
    using t [of "''02:03.500''"] by (simp add: s p del: not_None_eq)
  have 3: "parseWebVTTTimestamp decimalStrconv ''01:02:03:04'' = Inl InvalidTimestamp"
    using t [of "''01:02:03:04''"] by (simp add: s p del: not_None_eq)
  have 4: "parseWebVTTTimestamp decimalStrconv ''01:xx:03'' = Inl InvalidTimestamp"
    using t [of "''01:xx:03''"] by (simp add: s p del: not_None_eq)
  have 5: "parseSRTTimestamp decimalStrconv ''01:02:03,500'' = Inr (1 * 3600 + 2 * 60 + 7 / 2)"
    using t [of "''01:02:03,500''"] by (simp add: s p r del: not_None_eq)
  have 6: "parseSRTTimestamp decimalStrconv ''01:xx:03,500'' = Inl InvalidTimestamp"
    using t [of "''01:xx:03,500''"] by (simp add: s p r del: not_None_eq)
  from 1 2 3 4 5 6 show ?thesis by blast
qed

text \<open>
  The Format B timestamp parser on the two-component \<open>02:03,500\<close>, whose components are
  numeric, returns 0 and not \<open>2 * 60 + 3.5\<close>; on the four-component \<open>01:02:03:04\<close> it
  returns 0 and does not fail.
\<close>

theorem srt_timestamp_counterexample:
  "Split (ReplaceFirst ''02:03,500'' CHR '','' CHR ''.'') '':'' = [''02'', ''03.500''] \<and>
   ParseFloat decimalStrconv ''02'' = Some 2 \<and>
   ParseFloat decimalStrconv ''03.500'' = Some (7 / 2) \<and>
   parseSRTTimestamp decimalStrconv ''02:03,500'' = Inr 0 \<and>
   Split (ReplaceFirst ''01:02:03:04'' CHR '','' CHR ''.'') '':'' = [''01'', ''02'', ''03'', ''04''] \<and>
   parseSRTTimestamp decimalStrconv ''01:02:03:04'' = Inr 0"
  by (simp add: parseSRTTimestamp_def strings_eval decimal_eval)

subsection \<open>Timelines\<close>

text \<open>
  Claim C7, as amended. For every line that does not contain the arrow \<open>-->\<close>, the
  Format A timeline parser fails with \<open>InvalidTimeline\<close>; the Format B timeline parser
  returns the times \<open>(0, 0)\<close> and no error. The Format B parser does not call it on such
  a line: where it expects the timeline, a non-blank line without the arrow becomes the
  first text line of the cue.
\<close>

theorem timeline_without_arrow:
  assumes "\<not> Contains line ''-->''"
  shows "parseWebVTTTimeline lib line = Inl InvalidTimeline \<and>
         parseSRTTimeline lib line = Inr (0, 0) \<and>
         (srt_parseState st = 1 \<and> TrimSpace line \<noteq> [] \<longrightarrow>
            srtStep lib st line =
              Inr (st\<lparr>srt_textLines := srt_textLines st @ [line], srt_parseState := 2\<rparr>))"
proof -
  have n: "\<not> Contains (TrimSpace line) ''-->''" using assms Contains_TrimSpace by blast
  then have "Split (TrimSpace line) ''-->'' = [TrimSpace line]" by (rule Split_no_sep)
  then have 1: "parseWebVTTTimeline lib line = Inl InvalidTimeline"
    and 2: "parseSRTTimeline lib line = Inr (0, 0)"
    by (simp_all add: parseWebVTTTimeline_def parseSRTTimeline_def)
  have 3: "srtStep lib st line =
              Inr (st\<lparr>srt_textLines := srt_textLines st @ [line], srt_parseState := 2\<rparr>)"
    if "srt_parseState st = 1" "TrimSpace line \<noteq> []"
    using that n by (simp add: srtStep_def)
  from 1 2 3 show ?thesis by blast
qed

text \<open>The theorem at a line with two timestamps and no arrow.\<close>

theorem timeline_without_arrow_witness:
  "Contains ''00:00:01.000 00:00:04.000'' ''-->'' = False \<and>
   parseWebVTTTimeline decimalStrconv ''00:00:01.000 00:00:04.000'' = Inl InvalidTimeline \<and>
   parseSRTTimeline decimalStrconv ''00:00:01.000 00:00:04.000'' = Inr (0, 0) \<and>
   srtStep decimalStrconv (srtInit\<lparr>srt_parseState := 1\<rparr>) ''00:00:01.000 00:00:04.000'' =
     Inr (srtInit\<lparr>srt_textLines := [''00:00:01.000 00:00:04.000''], srt_parseState := 2\<rparr>)"
proof -
  have h: "\<not> Contains ''00:00:01.000 00:00:04.000'' ''-->''" by simp
  have t: "TrimSpace ''00:00:01.000 00:00:04.000'' \<noteq> []" by (simp add: strings_eval)
  from timeline_without_arrow [OF h, of decimalStrconv "srtInit\<lparr>srt_parseState := 1\<rparr>"] h t
  show ?thesis by (simp add: srtInit_def)
qed

text \<open>The Format B timeline parser does not fail on a line without the arrow.\<close>

theorem srt_timeline_counterexample:
  "Contains ''00:00:01,000 00:00:04,000'' ''-->'' = False \<and>
   parseSRTTimeline decimalStrconv ''00:00:01,000 00:00:04,000'' = Inr (0, 0)"
  by (simp add: parseSRTTimeline_def strings_eval)

subsection \<open>The header of Format A\<close>

lemma parseWebVTTTimestamp_error:
  "parseWebVTTTimestamp lib ts = Inl err \<Longrightarrow> err = InvalidTimestamp"
  by (auto simp: parseWebVTTTimestamp_def Let_def split: if_splits option.splits)

lemma parseWebVTTTimeline_error:
  "parseWebVTTTimeline lib line = Inl err \<Longrightarrow> err = InvalidTimeline \<or> err = InvalidTimestamp"
  by (auto simp: parseWebVTTTimeline_def Let_def split: if_splits sum.splits
      dest: parseWebVTTTimestamp_error)

lemma vttStep_error:
  "vttStep lib st line = Inl err \<Longrightarrow> err = InvalidTimeline \<or> err = InvalidTimestamp"
  by (auto simp: vttStep_def Let_def split: if_splits sum.splits prod.splits
      dest: parseWebVTTTimeline_error)

lemma vttLoop_error:
  "vttLoop lib st lines = Inl err \<Longrightarrow> err = InvalidTimeline \<or> err = InvalidTimestamp"
proof (induction lines arbitrary: st)
  case Nil
  then show ?case by simp
next
  case (Cons line lines)
  then show ?case
    by (cases "vttStep lib st line") (auto dest: vttStep_error)
qed

lemma scanFrom_error: "scanFrom m cur r = (lines, Some err) \<Longrightarrow> err = TokenTooLong"
  by (induction m cur r arbitrary: lines rule: scanFrom.induct)
    (auto split: if_splits prod.splits)

lemma scanLines_error: "scanLines m r = (lines, Some err) \<Longrightarrow> err = TokenTooLong"
  unfolding scanLines_def by (rule scanFrom_error)

text \<open>
  Claim C6, as amended. \<open>parseWebVTT\<close> fails with \<open>MissingHeader\<close> exactly when the
  input has a first line, empty or not, and that line does not start with \<open>WEBVTT\<close>;
  when the first line starts with \<open>WEBVTT\<close> the header check succeeds. An input
  without a line fails with the error \<open>empty file\<close>, and only such an input does.
\<close>

theorem webvtt_missing_header:
  "(parseWebVTT lib r = Inl MissingHeader \<longleftrightarrow>
      (\<exists>first. firstLine r = Some first \<and> \<not> HasPrefix first ''WEBVTT'')) \<and>
   (parseWebVTT lib r = Inl EmptyFile \<longleftrightarrow> firstLine r = None)"
proof -
  obtain lines scanErr where sc: "scanLines MaxScanTokenSize r = (lines, scanErr)"
    by (cases "scanLines MaxScanTokenSize r")
  show ?thesis
  proof (cases lines)
    case Nil
    then show ?thesis using sc by (simp add: parseWebVTT_def firstLine_def)
  next
    case (Cons first rest)
    show ?thesis
    proof (cases "HasPrefix first ''WEBVTT''")
      case False
      then show ?thesis using sc Cons by (simp add: parseWebVTT_def firstLine_def)
    next
      case True
      let ?loop = "vttLoop lib \<lparr>vtt_captions = [], vtt_currentCaption = zeroCaption,
                               vtt_inCaption = False, vtt_textLines = [], vtt_index = 1\<rparr>
                   (drop 1 (dropWhile (\<lambda>l. l \<noteq> []) rest))"
      have "parseWebVTT lib r \<noteq> Inl MissingHeader \<and> parseWebVTT lib r \<noteq> Inl EmptyFile"
      proof (cases ?loop)
        case (Inl err)
        then have "err = InvalidTimeline \<or> err = InvalidTimestamp" by (rule vttLoop_error)
        then show ?thesis using sc Cons True Inl by (auto simp: parseWebVTT_def)
      next
        case (Inr st)
        show ?thesis
        proof (cases scanErr)
          case None
          then show ?thesis using sc Cons True Inr by (simp add: parseWebVTT_def Let_def)
        next
          case (Some err)
          then have "err = TokenTooLong" using sc scanLines_error by blast
          then show ?thesis using sc Cons True Inr Some by (simp add: parseWebVTT_def Let_def)
        qed
      qed
      then show ?thesis using sc Cons True by (simp add: firstLine_def)
    qed
  qed
qed

text \<open>
  An input whose first line is empty and whose second line is \<open>WEBVTT\<close>: the first
  non-empty line starts with the signature, and the parse fails with
  \<open>MissingHeader\<close>.
\<close>

theorem webvtt_missing_header_counterexample:
  "firstNonEmptyLine (unlines ['''', ''WEBVTT'', '''', ''00:01.000 --> 00:02.000'', ''Hi'']) = Some ''WEBVTT'' \<and>
   HasPrefix ''WEBVTT'' ''WEBVTT'' \<and>
   parseWebVTT decimalStrconv (unlines ['''', ''WEBVTT'', '''', ''00:01.000 --> 00:02.000'', ''Hi''])
     = Inl MissingHeader"
  by (simp add: firstNonEmptyLine_def parseWebVTT_def scan_eval)

text \<open>The theorem at an input whose first line is \<open>1\<close>.\<close>

theorem webvtt_missing_header_witness:
  "firstLine (unlines [''1'', ''00:00:01.000 --> 00:00:04.000'', ''Hi'']) = Some ''1'' \<and>
   HasPrefix ''1'' ''WEBVTT'' = False \<and>
   parseWebVTT decimalStrconv (unlines [''1'', ''00:00:01.000 --> 00:00:04.000'', ''Hi''])
     = Inl MissingHeader"
proof -
  have f: "firstLine (unlines [''1'', ''00:00:01.000 --> 00:00:04.000'', ''Hi'']) = Some ''1''"
    by (simp add: firstLine_def scan_eval)
  have h: "HasPrefix ''1'' ''WEBVTT'' = False" by simp
  from webvtt_missing_header [of decimalStrconv "unlines [''1'', ''00:00:01.000 --> 00:00:04.000'', ''Hi'']"] f h
  show ?thesis by simp
qed

subsection \<open>Format B: text lines run to the next blank line\<close>

lemma srtLoop_text:
  assumes "srt_parseState st = 2" and "\<forall>l\<in>set ls. TrimSpace l \<noteq> []"
  shows "srtLoop lib st ls = Inr (st\<lparr>srt_textLines := srt_textLines st @ ls\<rparr>)"
  using assms
proof (induction ls arbitrary: st)
  case Nil
  then show ?case by simp
next
  case (Cons l ls)
  have step: "srtStep lib st l = Inr (st\<lparr>srt_textLines := srt_textLines st @ [l]\<rparr>)"
    using Cons.prems by (simp add: srtStep_def)
  have "srtLoop lib (st\<lparr>srt_textLines := srt_textLines st @ [l]\<rparr>) ls =
        Inr (st\<lparr>srt_textLines := srt_textLines st @ [l]\<rparr>
               \<lparr>srt_textLines := srt_textLines (st\<lparr>srt_textLines := srt_textLines st @ [l]\<rparr>) @ ls\<rparr>)"
    using Cons.prems by (intro Cons.IH) simp_all
  then show ?case using step by simp
qed

lemma Contains_nonempty: "Contains s (c # cs) \<Longrightarrow> s \<noteq> []"
  by auto

lemma srtLoop_append:
  "srtLoop lib st (xs @ ys) =
     (case srtLoop lib st xs of Inl err \<Rightarrow> Inl err | Inr st' \<Rightarrow> srtLoop lib st' ys)"
  by (induction xs arbitrary: st) (auto split: sum.splits)

lemma srtLoop_blank_idle:
  assumes "srt_parseState st = 0" and "list_all (\<lambda>l. TrimSpace l = []) ls"
  shows "srtLoop lib st ls = Inr st"
  using assms
proof (induction ls)
  case Nil
  then show ?case by simp
next
  case (Cons l ls)
  then have "srtStep lib st l = Inr st" by (simp add: srtStep_def)
  then show ?case using Cons by simp
qed

text \<open>The end of the input after the text of a cue: blank lines, if any.\<close>

lemma srtLoop_blank_end:
  assumes "srt_parseState st = 2" and "srt_textLines st \<noteq> []"
    and "list_all (\<lambda>l. TrimSpace l = []) ls"
  shows "\<exists>st'. srtLoop lib st ls = Inr st' \<and>
           srtFinish st' None = Inr (srt_captions st @
             [(srt_currentCaption st)\<lparr>Text := Join (srt_textLines st) [CHR 0x0A]\<rparr>])"
proof (cases ls)
  case Nil
  then show ?thesis using assms by (simp add: srtFinish_def srtAppend_def Let_def)
next
  case (Cons l ls')
  let ?st' = "((srtAppend st)\<lparr>srt_textLines := []\<rparr>)\<lparr>srt_parseState := 0\<rparr>"
  have "srtStep lib st l = Inr ?st'" using assms Cons by (simp add: srtStep_def)
  moreover have "srtLoop lib ?st' ls' = Inr ?st'"
    using assms(3) Cons by (intro srtLoop_blank_idle) simp_all
  ultimately have "srtLoop lib st ls = Inr ?st'" using Cons by simp
  moreover have "srtFinish ?st' None = Inr (srt_captions st @
             [(srt_currentCaption st)\<lparr>Text := Join (srt_textLines st) [CHR 0x0A]\<rparr>])"
    by (simp add: srtFinish_def srtAppend_def Let_def)
  ultimately show ?thesis by blast
qed

text \<open>
  Claim C3, as amended. For a Format B input that consists of two well-formed cue blocks
  with no blank line between them, with any number of blank lines before the first block
  and after the second, \<open>parseSRT\<close> returns one caption: it has the index and the times
  of the first block, and its text is the text lines of the first block followed by the
  index line, the timeline line and the text lines of the second block, joined by line
  feeds. A line is blank when \<open>strings.TrimSpace\<close> leaves nothing of it.
\<close>

theorem srt_missing_blank_line:
  assumes scan: "scanLines MaxScanTokenSize r =
                   (leading @ [index1, timeline1] @ text1 @ [index2, timeline2] @ text2 @ trailing,
                    None)"
    and b1: "wellFormedBlock lib index1 timeline1 text1"
    and b2: "wellFormedBlock lib index2 timeline2 text2"
    and bl: "list_all (\<lambda>l. TrimSpace l = []) leading" "list_all (\<lambda>l. TrimSpace l = []) trailing"
  shows "parseSRT lib r =
           Inr [\<lparr>Index = the (Atoi lib (TrimSpace index1)),
                 StartTime = fst (projr (parseSRTTimeline lib (TrimSpace timeline1))),
                 EndTime = snd (projr (parseSRTTimeline lib (TrimSpace timeline1))),
                 Text = Join (text1 @ [index2, timeline2] @ text2) [CHR 0x0A]\<rparr>]"
proof -
  let ?rest = "text1 @ [index2, timeline2] @ text2"
  obtain i where i: "Atoi lib (TrimSpace index1) = Some i"
    using b1 by (auto simp: wellFormedBlock_def)
  obtain s e where se: "parseSRTTimeline lib (TrimSpace timeline1) = Inr (s, e)"
    using b1 by (cases "parseSRTTimeline lib (TrimSpace timeline1)") (auto simp: wellFormedBlock_def)
  have n1: "TrimSpace index1 \<noteq> []" and a1: "Contains (TrimSpace timeline1) ''-->''"
    using b1 by (simp_all add: wellFormedBlock_def)
  have t1: "TrimSpace timeline1 \<noteq> []" using a1 by (rule Contains_nonempty)
  have "TrimSpace index2 \<noteq> []" "TrimSpace timeline2 \<noteq> []"
    using b2 Contains_nonempty [of "TrimSpace timeline2"] by (auto simp: wellFormedBlock_def)
  then have nb: "\<forall>l\<in>set ?rest. TrimSpace l \<noteq> []"
    using b1 b2 by (auto simp: wellFormedBlock_def list_all_iff)
  let ?st1 = "srtInit\<lparr>srt_currentCaption := zeroCaption\<lparr>Index := i\<rparr>, srt_parseState := 1\<rparr>"
  let ?st2 = "?st1\<lparr>srt_currentCaption :=
                           (srt_currentCaption ?st1)\<lparr>StartTime := s, EndTime := e\<rparr>,
                         srt_parseState := 2, srt_textLines := []\<rparr>"
  let ?st3 = "?st2\<lparr>srt_textLines := srt_textLines ?st2 @ ?rest\<rparr>"
  have s0: "srtLoop lib srtInit leading = Inr srtInit"
    using bl(1) by (intro srtLoop_blank_idle) (simp_all add: srtInit_def)
  have s1: "srtStep lib srtInit index1 = Inr ?st1"
    using n1 i by (simp add: srtStep_def srtInit_def)
  have s2: "srtStep lib ?st1 timeline1 = Inr ?st2"
    using t1 a1 se by (simp add: srtStep_def srtInit_def)
  have s3: "srtLoop lib ?st2 ?rest = Inr ?st3"
    using nb by (intro srtLoop_text) simp_all
  obtain st' where s4: "srtLoop lib ?st3 trailing = Inr st'"
    and fin: "srtFinish st' None = Inr (srt_captions ?st3 @
             [(srt_currentCaption ?st3)\<lparr>Text := Join (srt_textLines ?st3) [CHR 0x0A]\<rparr>])"
    using srtLoop_blank_end [of ?st3 trailing lib] bl(2) by auto
  define block where "block = [index1, timeline1] @ ?rest"
  have s123: "srtLoop lib srtInit block = Inr ?st3"
    unfolding block_def using s1 s2 s3 by simp
  have "srtLoop lib srtInit (leading @ block @ trailing) = Inr st'"
    using s0 s123 s4 by (simp add: srtLoop_append)
  then have loop: "srtLoop lib srtInit
      (leading @ [index1, timeline1] @ text1 @ [index2, timeline2] @ text2 @ trailing) = Inr st'"
    by (simp add: block_def)
  have cap: "srt_captions ?st3 @
             [(srt_currentCaption ?st3)\<lparr>Text := Join (srt_textLines ?st3) [CHR 0x0A]\<rparr>] =
             [\<lparr>Index = i, StartTime = s, EndTime = e, Text = Join ?rest [CHR 0x0A]\<rparr>]"
    by (simp add: srtInit_def zeroCaption_def)
  show ?thesis
    using scan loop fin cap i se by (simp add: parseSRT_def)
qed

text \<open>
  The theorem at two blocks of one text line each, after an empty line and before two blank
  lines, the second one a no-break space; with the decimal conversions.
\<close>

theorem srt_missing_blank_line_witness:
  "wellFormedBlock decimalStrconv ''1'' ''00:00:01,000 --> 00:00:04,000'' [''First''] \<and>
   wellFormedBlock decimalStrconv ''2'' ''00:00:05,000 --> 00:00:09,000'' [''Second''] \<and>
   list_all (\<lambda>l. TrimSpace l = []) ['''', [CHR 0xC2, CHR 0xA0]] \<and>
   parseSRT decimalStrconv
     (unlines ['''', ''1'', ''00:00:01,000 --> 00:00:04,000'', ''First'',
               ''2'', ''00:00:05,000 --> 00:00:09,000'', ''Second'', '''', [CHR 0xC2, CHR 0xA0]]) =
     Inr [\<lparr>Index = 1, StartTime = 1, EndTime = 4,
           Text = ''First\<newline>2\<newline>00:00:05,000 --> 00:00:09,000\<newline>Second''\<rparr>]"
proof -
  let ?r = "unlines ['''', ''1'', ''00:00:01,000 --> 00:00:04,000'', ''First'',
               ''2'', ''00:00:05,000 --> 00:00:09,000'', ''Second'', '''', [CHR 0xC2, CHR 0xA0]]"
  have tl: "parseSRTTimeline decimalStrconv ''00:00:01,000 --> 00:00:04,000'' = Inr (1, 4)"
    "parseSRTTimeline decimalStrconv ''00:00:05,000 --> 00:00:09,000'' = Inr (5, 9)"
    by (simp_all add: parseSRTTimeline_def parseSRTTimestamp_def strings_eval decimal_eval)
  have tr: "TrimSpace ''1'' = ''1''" "TrimSpace ''2'' = ''2''"
    "TrimSpace ''00:00:01,000 --> 00:00:04,000'' = ''00:00:01,000 --> 00:00:04,000''"
    "TrimSpace ''00:00:05,000 --> 00:00:09,000'' = ''00:00:05,000 --> 00:00:09,000''"
    "TrimSpace ''First'' = ''First''" "TrimSpace ''Second'' = ''Second''"
    "TrimSpace '''' = ''''" "TrimSpace [CHR 0xC2, CHR 0xA0] = ''''"
    by (simp_all add: strings_eval)
  have at: "Atoi decimalStrconv ''1'' = Some 1" "Atoi decimalStrconv ''2'' = Some 2"
    by (simp_all add: decimal_eval)
  have b1: "wellFormedBlock decimalStrconv ''1'' ''00:00:01,000 --> 00:00:04,000'' [''First'']"
    by (simp add: wellFormedBlock_def tr tl at)
  have b2: "wellFormedBlock decimalStrconv ''2'' ''00:00:05,000 --> 00:00:09,000'' [''Second'']"
    by (simp add: wellFormedBlock_def tr tl at)
  have l1: "list_all (\<lambda>l. TrimSpace l = []) ['''']" by (simp add: tr)
  have l2: "list_all (\<lambda>l. TrimSpace l = []) ['''', [CHR 0xC2, CHR 0xA0]]" by (simp add: tr)
  have scan: "scanLines MaxScanTokenSize ?r =
     ([''''] @ [''1'', ''00:00:01,000 --> 00:00:04,000''] @ [''First''] @
      [''2'', ''00:00:05,000 --> 00:00:09,000''] @ [''Second''] @ ['''', [CHR 0xC2, CHR 0xA0]], None)"
    by (simp add: scan_eval)
  from srt_missing_blank_line [OF scan b1 b2 l1 l2] b1 b2 l2
  show ?thesis by (simp add: tr tl at)
qed

text \<open>
  Two well-formed blocks, 7 and 8, without the blank line between them: the parser returns
  one caption, whose text holds the whole second block, and not two captions.
\<close>

theorem srt_missing_blank_line_counterexample:
  "wellFormedBlock decimalStrconv ''7'' ''00:00:10,500 --> 00:00:13,000'' [''Hello'', ''there''] \<and>
   wellFormedBlock decimalStrconv ''8'' ''00:00:15,000 --> 00:00:18,000'' [''Bye''] \<and>
   parseSRT decimalStrconv
     (unlines [''7'', ''00:00:10,500 --> 00:00:13,000'', ''Hello'', ''there'',
               ''8'', ''00:00:15,000 --> 00:00:18,000'', ''Bye'']) =
     Inr [\<lparr>Index = 7, StartTime = 21 / 2, EndTime = 13,
           Text = ''Hello\<newline>there\<newline>8\<newline>00:00:15,000 --> 00:00:18,000\<newline>Bye''\<rparr>]"
proof -
  have tl: "parseSRTTimeline decimalStrconv ''00:00:10,500 --> 00:00:13,000'' = Inr (21 / 2, 13)"
    "parseSRTTimeline decimalStrconv ''00:00:15,000 --> 00:00:18,000'' = Inr (15, 18)"
    by (simp_all add: parseSRTTimeline_def parseSRTTimestamp_def strings_eval decimal_eval)
  have tr: "TrimSpace ''7'' = ''7''" "TrimSpace ''8'' = ''8''"
    "TrimSpace ''00:00:10,500 --> 00:00:13,000'' = ''00:00:10,500 --> 00:00:13,000''"
    "TrimSpace ''00:00:15,000 --> 00:00:18,000'' = ''00:00:15,000 --> 00:00:18,000''"
    "TrimSpace ''Hello'' = ''Hello''" "TrimSpace ''there'' = ''there''" "TrimSpace ''Bye'' = ''Bye''"
    by (simp_all add: strings_eval)
  have at: "Atoi decimalStrconv ''7'' = Some 7" "Atoi decimalStrconv ''8'' = Some 8"
    by (simp_all add: decimal_eval)
  have b1: "wellFormedBlock decimalStrconv ''7'' ''00:00:10,500 --> 00:00:13,000'' [''Hello'', ''there'']"
    by (simp add: wellFormedBlock_def tr tl at)
  have b2: "wellFormedBlock decimalStrconv ''8'' ''00:00:15,000 --> 00:00:18,000'' [''Bye'']"
    by (simp add: wellFormedBlock_def tr tl at)
  have scan: "scanLines MaxScanTokenSize (unlines [''7'', ''00:00:10,500 --> 00:00:13,000'', ''Hello'', ''there'',
               ''8'', ''00:00:15,000 --> 00:00:18,000'', ''Bye'']) =
     ([''7'', ''00:00:10,500 --> 00:00:13,000'', ''Hello'', ''there'',
               ''8'', ''00:00:15,000 --> 00:00:18,000'', ''Bye''], None)"
    by (simp add: scan_eval)
  have "parseSRT decimalStrconv
     (unlines [''7'', ''00:00:10,500 --> 00:00:13,000'', ''Hello'', ''there'',
               ''8'', ''00:00:15,000 --> 00:00:18,000'', ''Bye'']) =
     Inr [\<lparr>Index = 7, StartTime = 21 / 2, EndTime = 13,
           Text = ''Hello\<newline>there\<newline>8\<newline>00:00:15,000 --> 00:00:18,000\<newline>Bye''\<rparr>]"
    by (simp add: parseSRT_def scan srtStep_def srtInit_def srtFinish_def srtAppend_def
        zeroCaption_def tr tl at Let_def)
  with b1 b2 show ?thesis by blast
qed

subsection \<open>The bounded-memory parsers and the standard parsers\<close>

lemma chunkedVttStep_eq: "chunkedVttStep lib st line = vttStep lib st line"
  unfolding chunkedVttStep_def vttStep_def by (rule refl)

lemma chunkedVttLoop_eq: "chunkedVttLoop lib st lines = vttLoop lib st lines"
  by (induction lines arbitrary: st) (simp_all add: chunkedVttStep_eq split: sum.splits)

lemma chunkedSrtStep_eq: "chunkedSrtStep lib st line = srtStep lib st line"
  unfolding chunkedSrtStep_def srtStep_def by (rule refl)

lemma chunkedSrtLoop_eq: "chunkedSrtLoop lib st lines = srtLoop lib st lines"
  by (induction lines arbitrary: st) (simp_all add: chunkedSrtStep_eq split: sum.splits)

lemma bufSize_eq: "bufSize = MaxScanTokenSize"
  by (simp add: bufSize_def MaxScanTokenSize_def)

text \<open>
  Claim C8. On every input, and so on every input whose lines fit within the 64KB limit,
  a bounded-memory parser returns the same caption sequence as its standard counterpart,
  and fails when the counterpart fails. Both scanners have the same token limit of 64KB;
  the two Format B parsers agree on the error as well, and the two Format A parsers
  differ only in the error for an input without a line (\<open>io.EOF\<close> and
  \<open>empty file\<close>).
\<close>

theorem chunked_parsers_agree:
  "captions_of (parseChunkedWebVTT lib r) = captions_of (parseWebVTT lib r) \<and>
   (parseChunkedWebVTT lib r = parseWebVTT lib r \<or>
    parseChunkedWebVTT lib r = Inl EOF \<and> parseWebVTT lib r = Inl EmptyFile) \<and>
   parseChunkedSRT lib r = parseSRT lib r"
proof -
  obtain lines scanErr where sc: "scanLines MaxScanTokenSize r = (lines, scanErr)"
    by (cases "scanLines MaxScanTokenSize r")
  have srt: "parseChunkedSRT lib r = parseSRT lib r"
    by (simp add: parseChunkedSRT_def parseSRT_def bufSize_eq chunkedSrtLoop_eq)
  have vtt: "parseChunkedWebVTT lib r = parseWebVTT lib r \<or>
    parseChunkedWebVTT lib r = Inl EOF \<and> parseWebVTT lib r = Inl EmptyFile"
  proof (cases lines)
    case Nil
    then show ?thesis using sc by (simp add: parseChunkedWebVTT_def parseWebVTT_def bufSize_eq)
  next
    case (Cons first rest)
    then have "parseChunkedWebVTT lib r = parseWebVTT lib r"
      using sc by (simp add: parseChunkedWebVTT_def parseWebVTT_def bufSize_eq chunkedVttLoop_eq)
    then show ?thesis by simp
  qed
  then have "captions_of (parseChunkedWebVTT lib r) = captions_of (parseWebVTT lib r)"
    by (auto simp: captions_of_def)
  with vtt srt show ?thesis by blast
qed

subsection \<open>Plain text\<close>

lemma set_stripTags: "set (stripTags s) \<subseteq> set s"
proof (induction s rule: stripTags.induct)
  case 1
  then show ?case by simp
next
  case (2 c cs)
  show ?case
  proof (cases "c = CHR ''<'' \<and> CHR ''>'' \<in> set cs")
    case True
    have "set (drop 1 (dropWhile (\<lambda>d. d \<noteq> CHR ''>'') cs)) \<subseteq> set cs"
      by (meson set_drop_subset set_dropWhileD subset_iff)
    then show ?thesis using "2.IH"(1) True by auto
  next
    case False
    then show ?thesis using "2.IH"(2) by auto
  qed
qed

lemma stripTags_no_span: "\<not> hasSpan (stripTags s)"
proof (induction s rule: stripTags.induct)
  case 1
  then show ?case by simp
next
  case (2 c cs)
  show ?case
  proof (cases "c = CHR ''<'' \<and> CHR ''>'' \<in> set cs")
    case True
    then show ?thesis using "2.IH"(1) by simp
  next
    case False
    then show ?thesis using "2.IH"(2) set_stripTags [of cs] by auto
  qed
qed

lemma stripTags_id: "\<not> hasSpan s \<Longrightarrow> stripTags s = s"
  by (induction s) auto

lemma builder_concat:
  "foldl (\<lambda>builder caption. builder @ f caption @ '' '') acc captions =
   acc @ concat (map (\<lambda>caption. f caption @ '' '') captions)"
  by (induction captions arbitrary: acc) auto

lemma concat_Join: "xs \<noteq> [] \<Longrightarrow> concat (map (\<lambda>x. x @ sep) xs) = Join xs sep @ sep"
  by (induction xs sep rule: Join.induct) auto

lemma TrimSpace_append_space: "TrimSpace (s @ '' '') = TrimSpace s"
  by (simp add: TrimSpace_def TrimLeftSpace_append_space TrimRightSpace_append_space)

text \<open>
  Claim C9. \<open>ExtractPlainText\<close> returns the texts of the captions with the markup
  spans removed, joined by single spaces in caption order, with leading and trailing
  white space trimmed: the joined string is the result between a string of white space
  runes and another one, and the result neither starts nor ends with a white space rune.
  No span is left in a stripped text, and a text without a span is left as it is.
\<close>

theorem plain_text_extraction:
  "ExtractPlainText captions =
     TrimSpace (Join (map (\<lambda>caption. stripTags (Text caption)) captions) '' '') \<and>
   (\<exists>a b. onlySpace a \<and> onlySpace b \<and>
      Join (map (\<lambda>caption. stripTags (Text caption)) captions) '' '' =
        a @ ExtractPlainText captions @ b) \<and>
   \<not> startsWithSpace (ExtractPlainText captions) \<and>
   \<not> endsWithSpace (ExtractPlainText captions) \<and>
   list_all (\<lambda>caption. \<not> hasSpan (stripTags (Text caption))) captions \<and>
   list_all (\<lambda>caption. \<not> hasSpan (Text caption) \<longrightarrow> stripTags (Text caption) = Text caption)
     captions"
proof -
  let ?joined = "Join (map (\<lambda>caption. stripTags (Text caption)) captions) '' ''"
  have eq: "ExtractPlainText captions = TrimSpace ?joined"
  proof (cases captions)
    case Nil
    then show ?thesis by (simp add: ExtractPlainText_def)
  next
    case (Cons c cs)
    then have "map (\<lambda>caption. stripTags (Text caption)) captions \<noteq> []" by simp
    from concat_Join [OF this, of "'' ''"]
    have "concat (map (\<lambda>caption. stripTags (Text caption) @ '' '') captions) = ?joined @ '' ''"
      by (simp add: comp_def)
    then show ?thesis
      by (simp add: ExtractPlainText_def builder_concat TrimSpace_append_space)
  qed
  have dec: "\<exists>a b. onlySpace a \<and> onlySpace b \<and> ?joined = a @ ExtractPlainText captions @ b"
    unfolding eq by (rule TrimSpace_decomp)
  have ns: "\<not> startsWithSpace (ExtractPlainText captions)"
    "\<not> endsWithSpace (ExtractPlainText captions)"
    unfolding eq using TrimSpace_no_space [of ?joined] by simp_all
  have sp: "list_all (\<lambda>caption. \<not> hasSpan (stripTags (Text caption))) captions"
    "list_all (\<lambda>caption. \<not> hasSpan (Text caption) \<longrightarrow> stripTags (Text caption) = Text caption)
      captions"
    by (simp_all add: list_all_iff stripTags_no_span stripTags_id)
  from eq dec ns sp show ?thesis by (intro conjI)
qed

text \<open>
  The theorem at the captions of the test \<open>TestExtractPlainText\<close>, with a no-break
  space in front of the first text and two spaces after the last one.
\<close>

theorem plain_text_extraction_witness:
  "ExtractPlainText
     [\<lparr>Index = 1, StartTime = 0, EndTime = 5,
       Text = CHR 0xC2 # CHR 0xA0 # ''This is the first caption.''\<rparr>,
      \<lparr>Index = 2, StartTime = 5, EndTime = 10, Text = ''This is the <b>second</b> caption.''\<rparr>,
      \<lparr>Index = 3, StartTime = 10, EndTime = 15, Text = ''This is the\<newline>third caption.  ''\<rparr>] =
   ''This is the first caption. This is the second caption. This is the\<newline>third caption.'' \<and>
   onlySpace [CHR 0xC2, CHR 0xA0] \<and> onlySpace ''  '' \<and>
   startsWithSpace ''This is the first caption. This is the second caption. This is the\<newline>third caption.'' = False \<and>
   endsWithSpace ''This is the first caption. This is the second caption. This is the\<newline>third caption.'' = False \<and>
   hasSpan ''This is the first caption.'' = False \<and>
   hasSpan ''This is the <b>second</b> caption.'' = True \<and>
   stripTags ''This is the <b>second</b> caption.'' = ''This is the second caption.''"
proof -
  let ?captions = "[\<lparr>Index = 1, StartTime = 0, EndTime = 5,
       Text = CHR 0xC2 # CHR 0xA0 # ''This is the first caption.''\<rparr>,
      \<lparr>Index = 2, StartTime = 5, EndTime = 10, Text = ''This is the <b>second</b> caption.''\<rparr>,
      \<lparr>Index = 3, StartTime = 10, EndTime = 15, Text = ''This is the\<newline>third caption.  ''\<rparr>]"
  let ?plain = "''This is the first caption. This is the second caption. This is the\<newline>third caption.''"
  have s: "stripTags (CHR 0xC2 # CHR 0xA0 # ''This is the first caption.'') =
             CHR 0xC2 # CHR 0xA0 # ''This is the first caption.''"
    "stripTags ''This is the <b>second</b> caption.'' = ''This is the second caption.''"
    "stripTags ''This is the\<newline>third caption.  '' = ''This is the\<newline>third caption.  ''"
    by simp_all
  have t: "TrimSpace (CHR 0xC2 # CHR 0xA0 #
      ''This is the first caption. This is the second caption. This is the\<newline>third caption.  '') =
      ?plain"
    by (simp add: strings_eval)
  have o1: "onlySpace [CHR 0xC2, CHR 0xA0]"
    unfolding onlySpace_def by (rule exI [of _ "[[CHR 0xC2, CHR 0xA0]]"]) (simp add: whiteSpace_def)
  have o2: "onlySpace ''  ''"
    unfolding onlySpace_def by (rule exI [of _ "['' '', '' '']"]) (simp add: whiteSpace_def)
  have h: "hasSpan ''This is the first caption.'' = False"
    "hasSpan ''This is the <b>second</b> caption.'' = True"
    by simp_all
  have e: "ExtractPlainText ?captions = ?plain"
    using plain_text_extraction [of ?captions] by (simp add: s t)
  have "\<not> startsWithSpace (ExtractPlainText ?captions)"
    "\<not> endsWithSpace (ExtractPlainText ?captions)"
    using plain_text_extraction [of ?captions] by blast+
  then have n: "startsWithSpace ?plain = False" "endsWithSpace ?plain = False"
    by (simp_all only: e)
  from e o1 o2 n h s(2) show ?thesis by (intro conjI)
qed

end
